theory Spec2Isabelle
  imports Complex_Main "HOL-Library.Sublist" "HOL-Library.Log_Nat"
begin

section \<open>Data model: panels as column-oriented frames\<close>

text \<open>
  The program of \<^verbatim>\<open>data.py\<close> works on pandas data frames. A frame is modelled by its
  row index and its columns in order. A column carries its dtype in its constructor:
  \<^item> \<open>IntCol\<close>: an int64 column (it cannot hold a missing value);
  \<^item> \<open>FloatCol\<close>: a float64 column, \<open>None\<close> is NaN;
  \<^item> \<open>BoolCol\<close>: a bool column (it cannot hold a missing value);
  \<^item> \<open>ObjCol\<close>: an object column of strings or booleans, \<open>None\<close> is NaN/None,
    as \<^verbatim>\<open>read_csv\<close> produces for text fields.

  The values stored in float cells are exact rationals (no arithmetic is done on
  them); the floats the program computes with are modelled as binary64 values below.
  Row labels are integers (positions of a RangeIndex, or ordinals of dates). Every operation below keeps the dtype of a column; the silent
  downcasting of filled object columns that older pandas versions perform is not
  modelled.
\<close>

type_synonym label = int

datatype pyobj = PStr string | PBool bool

datatype coldata =
    IntCol "int list"
  | FloatCol "rat option list"
  | BoolCol "bool list"
  | ObjCol "pyobj option list"

record frame =
  index :: "label list"
  columns :: "(string \<times> coldata) list"

datatype cell = CInt int | CFloat "rat option" | CBool bool | CObj "pyobj option"

type_synonym matrix = "cell list list"

text \<open>
  Errors as values. \<open>AmbiguousTruthValue\<close> is the \<^verbatim>\<open>ValueError\<close> pandas raises when a
  Series with several elements is used as a condition, \<open>DuplicateLabels\<close> the
  \<^verbatim>\<open>ValueError\<close> of reindexing a Series whose index has duplicates, \<open>IntOfNaN\<close> and
  \<open>IntOfInfinity\<close> the \<^verbatim>\<open>ValueError\<close> and \<^verbatim>\<open>OverflowError\<close> of \<^verbatim>\<open>int(x)\<close> on a float
  that is NaN or infinite. The next three stand for any
  exception of the external collaborators (\<^verbatim>\<open>pd.read_csv\<close>,
  \<^verbatim>\<open>StandardScaler.fit_transform\<close>, \<^verbatim>\<open>DataLoader\<close>). The last two are the error kinds
  the specification names; no statement of the source raises them.
\<close>

datatype error =
    AmbiguousTruthValue
  | DuplicateLabels
  | IntOfNaN
  | IntOfInfinity
  | ReadCsvFailed
  | FitTransformFailed
  | DataLoaderFailed
  | EmptyPanelError
  | DegenerateSplitError

subsection \<open>Floats\<close>

text \<open>
  A Python float is an IEEE 754 binary64 value: finite (its exact value, a rational),
  an infinity, or NaN. The two signed zeros are not distinguished; nothing below
  depends on the sign of a zero.
\<close>

datatype pyfloat = Fin rat | PInf | NInf | NaN

text \<open>Rounding to the nearest integer, a tie to the even one.\<close>

definition round_half_even :: "rat \<Rightarrow> int" where
  "round_half_even x =
     (let f = \<lfloor>x\<rfloor>; d = x - of_int f
      in if d < 1 / 2 then f else if 1 / 2 < d then f + 1 else if even f then f else f + 1)"

text \<open>
  The binary exponent of a positive rational: the \<open>e\<close> with \<open>2^e \<le> q < 2^(e+1)\<close>, from
  the bit lengths of numerator and denominator.
\<close>

definition ilog2 :: "rat \<Rightarrow> int" where
  "ilog2 q =
     (let e = bitlen (fst (quotient_of q)) - bitlen (snd (quotient_of q))
      in if (if 0 \<le> e then 2 ^ nat e \<le> q else 1 \<le> q * 2 ^ nat (- e)) then e else e - 1)"

text \<open>
  A positive rational rounded to 53 significant bits: below \<open>2^53\<close> it is scaled up by
  \<open>2^s\<close> into \<open>[2^52, 2^53)\<close>, rounded to an integer and scaled back, with \<open>s\<close> at most
  1074 (the spacing of subnormal numbers); from \<open>2^53\<close> on it is scaled down instead.
\<close>

definition round_pos :: "rat \<Rightarrow> rat" where
  "round_pos q =
     (if q < 2 ^ 53
      then (let s = nat (min (52 - ilog2 q) 1074) in of_int (round_half_even (q * 2 ^ s)) / 2 ^ s)
      else (let d = nat (ilog2 q - 52) in of_int (round_half_even (q / 2 ^ d)) * 2 ^ d))"

text \<open>\<open>2^1024\<close>, written out: a result that rounds to it or beyond overflows.\<close>

definition overflow_bound :: rat where
  "overflow_bound =
     179769313486231590772930519078902473361797697894230657273430081157732675805500963132708477322407536021120113879871393357658789768814416622492847430639474124377767893424865485276302219601246094119453082952085005768838150682342462881473913110540827237163350510684586298239947245938479716304835356329624224137216"

text \<open>The float an exact result becomes: round to nearest, ties to even, overflow to infinity.\<close>

definition fl :: "rat \<Rightarrow> pyfloat" where
  "fl q =
     (let r = (if q = 0 then 0 else if 0 < q then round_pos q else - round_pos (- q))
      in if overflow_bound \<le> r then PInf else if r \<le> - overflow_bound then NInf else Fin r)"

text \<open>\<^verbatim>\<open>x - y\<close>, \<^verbatim>\<open>x * y\<close> and \<^verbatim>\<open>x > y\<close> on floats, and \<^verbatim>\<open>float(n)\<close> of a natural number.\<close>

fun fsub :: "pyfloat \<Rightarrow> pyfloat \<Rightarrow> pyfloat" where
  "fsub (Fin a) (Fin b) = fl (a - b)"
| "fsub NaN y = NaN"
| "fsub x NaN = NaN"
| "fsub PInf PInf = NaN"
| "fsub NInf NInf = NaN"
| "fsub PInf y = PInf"
| "fsub NInf y = NInf"
| "fsub x PInf = NInf"
| "fsub x NInf = PInf"

fun fsign :: "pyfloat \<Rightarrow> int" where
  "fsign (Fin a) = (if a = 0 then 0 else if 0 < a then 1 else - 1)"
| "fsign PInf = 1"
| "fsign NInf = - 1"
| "fsign NaN = 0"

fun fmul :: "pyfloat \<Rightarrow> pyfloat \<Rightarrow> pyfloat" where
  "fmul (Fin a) (Fin b) = fl (a * b)"
| "fmul NaN y = NaN"
| "fmul x NaN = NaN"
| "fmul x y =
     (if fsign x * fsign y = 0 then NaN else if 0 < fsign x * fsign y then PInf else NInf)"

fun fgt :: "pyfloat \<Rightarrow> pyfloat \<Rightarrow> bool" where
  "fgt (Fin a) (Fin b) = (b < a)"
| "fgt NaN y = False"
| "fgt x NaN = False"
| "fgt PInf PInf = False"
| "fgt PInf y = True"
| "fgt x PInf = False"
| "fgt NInf y = False"
| "fgt x NInf = True"

definition float_of_nat :: "nat \<Rightarrow> pyfloat" where
  "float_of_nat n = fl (of_nat n)"

text \<open>
  \<^verbatim>\<open>int(x)\<close> on a float truncates toward zero, and raises on NaN and on an infinity.
\<close>

fun py_int :: "pyfloat \<Rightarrow> error + int" where
  "py_int (Fin q) = Inr (if 0 \<le> q then \<lfloor>q\<rfloor> else \<lceil>q\<rceil>)"
| "py_int NaN = Inl IntOfNaN"
| "py_int PInf = Inl IntOfInfinity"
| "py_int NInf = Inl IntOfInfinity"

subsection \<open>Column primitives\<close>

fun col_len :: "coldata \<Rightarrow> nat" where
  "col_len (IntCol xs) = length xs"
| "col_len (FloatCol xs) = length xs"
| "col_len (BoolCol xs) = length xs"
| "col_len (ObjCol xs) = length xs"

text \<open>\<^verbatim>\<open>Series.isna()\<close>: the mask of missing entries.\<close>

fun col_isna :: "coldata \<Rightarrow> bool list" where
  "col_isna (IntCol xs) = map (\<lambda>_. False) xs"
| "col_isna (FloatCol xs) = map (\<lambda>x. x = None) xs"
| "col_isna (BoolCol xs) = map (\<lambda>_. False) xs"
| "col_isna (ObjCol xs) = map (\<lambda>x. x = None) xs"

text \<open>
  \<^verbatim>\<open>.mean()\<close> of a boolean mask: the number of \<open>True\<close> entries divided by the number of
  entries, in floats. On an empty mask pandas returns NaN.
\<close>

definition mask_mean :: "bool list \<Rightarrow> pyfloat" where
  "mask_mean m =
     (if m = [] then NaN
      else fl (of_nat (length (filter (\<lambda>b. b) m)) / of_nat (length m)))"

text \<open>\<^verbatim>\<open>series.isna().mean()\<close>: the fraction of missing entries of a column.\<close>

definition isna_mean :: "coldata \<Rightarrow> pyfloat" where
  "isna_mean c = mask_mean (col_isna c)"

text \<open>\<^verbatim>\<open>x > col_thresh\<close>: the comparison of two floats.\<close>

definition exceeds :: "pyfloat \<Rightarrow> pyfloat \<Rightarrow> bool" where
  "exceeds m t = fgt m t"

text \<open>Forward fill: the last valid observation is carried into each later gap.\<close>

fun ffill_from :: "'a option \<Rightarrow> 'a option list \<Rightarrow> 'a option list" where
  "ffill_from prev [] = []"
| "ffill_from prev (None # xs) = prev # ffill_from prev xs"
| "ffill_from prev (Some v # xs) = Some v # ffill_from (Some v) xs"

definition ffill_list :: "'a option list \<Rightarrow> 'a option list" where
  "ffill_list xs = ffill_from None xs"

text \<open>Backward fill: the next valid observation is carried into each earlier gap.\<close>

definition bfill_list :: "'a option list \<Rightarrow> 'a option list" where
  "bfill_list xs = rev (ffill_from None (rev xs))"

fun col_ffill :: "coldata \<Rightarrow> coldata" where
  "col_ffill (IntCol xs) = IntCol xs"
| "col_ffill (FloatCol xs) = FloatCol (ffill_list xs)"
| "col_ffill (BoolCol xs) = BoolCol xs"
| "col_ffill (ObjCol xs) = ObjCol (ffill_list xs)"

fun col_bfill :: "coldata \<Rightarrow> coldata" where
  "col_bfill (IntCol xs) = IntCol xs"
| "col_bfill (FloatCol xs) = FloatCol (bfill_list xs)"
| "col_bfill (BoolCol xs) = BoolCol xs"
| "col_bfill (ObjCol xs) = ObjCol (bfill_list xs)"

text \<open>Boolean-mask row selection, as \<^verbatim>\<open>dropna\<close> applies it to the index and every column.\<close>

definition select_rows :: "bool list \<Rightarrow> 'a list \<Rightarrow> 'a list" where
  "select_rows m xs = map snd (filter fst (zip m xs))"

fun col_select :: "bool list \<Rightarrow> coldata \<Rightarrow> coldata" where
  "col_select m (IntCol xs) = IntCol (select_rows m xs)"
| "col_select m (FloatCol xs) = FloatCol (select_rows m xs)"
| "col_select m (BoolCol xs) = BoolCol (select_rows m xs)"
| "col_select m (ObjCol xs) = ObjCol (select_rows m xs)"

text \<open>
  \<^verbatim>\<open>select_dtypes(include=["number"])\<close>: int64 and float64 are numbers, bool and object
  are not.
\<close>

fun is_number :: "coldata \<Rightarrow> bool" where
  "is_number (IntCol xs) = True"
| "is_number (FloatCol xs) = True"
| "is_number (BoolCol xs) = False"
| "is_number (ObjCol xs) = False"

fun col_cells :: "coldata \<Rightarrow> cell list" where
  "col_cells (IntCol xs) = map CInt xs"
| "col_cells (FloatCol xs) = map CFloat xs"
| "col_cells (BoolCol xs) = map CBool xs"
| "col_cells (ObjCol xs) = map CObj xs"

subsection \<open>Frame primitives\<close>

definition colnames :: "frame \<Rightarrow> string list" where
  "colnames df = map fst (columns df)"

text \<open>\<^verbatim>\<open>df.shape\<close>.\<close>

definition shape :: "frame \<Rightarrow> nat \<times> nat" where
  "shape df = (length (index df), length (columns df))"

text \<open>The invariant of every data frame: each column has one entry per row label.\<close>

definition wf_frame :: "frame \<Rightarrow> bool" where
  "wf_frame df = list_all (\<lambda>nc. col_len (snd nc) = length (index df)) (columns df)"

text \<open>
  \<^verbatim>\<open>df[col]\<close> for one label: all columns carrying that label. With a unique label this
  is a single Series; with a duplicated label pandas returns a DataFrame.
\<close>

definition getitem :: "frame \<Rightarrow> string \<Rightarrow> coldata list" where
  "getitem df col = map snd (filter (\<lambda>nc. fst nc = col) (columns df))"

text \<open>
  \<^verbatim>\<open>[col for col in clean_df.columns if clean_df[col].isna().mean() > col_thresh]\<close>.
  For a duplicated label the condition is a Series of several booleans and its truth
  value raises.
\<close>

fun drop_cols :: "frame \<Rightarrow> pyfloat \<Rightarrow> string list \<Rightarrow> error + string list" where
  "drop_cols df t [] = Inr []"
| "drop_cols df t (col # cols) =
     (case getitem df col of
        [s] \<Rightarrow>
          (case drop_cols df t cols of
             Inl e \<Rightarrow> Inl e
           | Inr ds \<Rightarrow> Inr (if exceeds (isna_mean s) t then col # ds else ds))
      | _ \<Rightarrow> Inl AmbiguousTruthValue)"

text \<open>\<^verbatim>\<open>df.drop(columns=drop_cols)\<close>.\<close>

definition drop_columns :: "frame \<Rightarrow> string list \<Rightarrow> frame" where
  "drop_columns df ds = df\<lparr>columns := filter (\<lambda>nc. fst nc \<notin> set ds) (columns df)\<rparr>"

definition ffill :: "frame \<Rightarrow> frame" where
  "ffill df = df\<lparr>columns := map (\<lambda>nc. (fst nc, col_ffill (snd nc))) (columns df)\<rparr>"

definition bfill :: "frame \<Rightarrow> frame" where
  "bfill df = df\<lparr>columns := map (\<lambda>nc. (fst nc, col_bfill (snd nc))) (columns df)\<rparr>"

text \<open>
  \<^verbatim>\<open>dropna(how='any')\<close>: a row stays when no column is missing at its position.
\<close>

definition row_notna :: "frame \<Rightarrow> bool list" where
  "row_notna df =
     map (\<lambda>i. list_all (\<lambda>nc. \<not> col_isna (snd nc) ! i) (columns df)) [0..<length (index df)]"

definition dropna_any :: "frame \<Rightarrow> frame" where
  "dropna_any df =
     (let m = row_notna df
      in \<lparr>index = select_rows m (index df),
          columns = map (\<lambda>nc. (fst nc, col_select m (snd nc))) (columns df)\<rparr>)"

text \<open>\<^verbatim>\<open>clean_df.select_dtypes(include=["number"]).columns\<close>.\<close>

definition numeric_cols :: "frame \<Rightarrow> string list" where
  "numeric_cols df = map fst (filter (\<lambda>nc. is_number (snd nc)) (columns df))"

text \<open>\<^verbatim>\<open>df[names]\<close> for a list of labels: the columns of each label, in the list's order.\<close>

definition getitem_list :: "frame \<Rightarrow> string list \<Rightarrow> frame" where
  "getitem_list df names =
     df\<lparr>columns := concat (map (\<lambda>n. filter (\<lambda>nc. fst nc = n) (columns df)) names)\<rparr>"

text \<open>Observations on a frame: the number of missing entries, and whether all columns are numeric.\<close>

definition missing_count :: "frame \<Rightarrow> nat" where
  "missing_count df = sum_list (map (\<lambda>nc. length (filter (\<lambda>b. b) (col_isna (snd nc)))) (columns df))"

definition all_numeric :: "frame \<Rightarrow> bool" where
  "all_numeric df = list_all (\<lambda>nc. is_number (snd nc)) (columns df)"

subsection \<open>The cleaning policy\<close>

text \<open>
  \<^verbatim>\<open>clean_quarterly_data(df, col_thresh)\<close> as a function of the frame's value: prune
  columns by missing fraction, forward fill, backward fill, drop rows with a remaining
  gap, keep the numeric columns.
\<close>

definition clean_quarterly_data :: "frame \<Rightarrow> pyfloat \<Rightarrow> error + frame" where
  "clean_quarterly_data df col_thresh =
     (case drop_cols df col_thresh (colnames df) of
        Inl e \<Rightarrow> Inl e
      | Inr ds \<Rightarrow>
          (let clean_df = drop_columns df ds;
               clean_df = bfill (ffill clean_df);
               clean_df = dropna_any clean_df
           in Inr (getitem_list clean_df (numeric_cols clean_df))))"


text \<open>
  Two intermediate values of the cleaning: the columns the threshold keeps, after both
  fills, and the row mask \<^verbatim>\<open>dropna\<close> computes from them.
\<close>

definition kept_filled :: "frame \<Rightarrow> pyfloat \<Rightarrow> (string \<times> coldata) list" where
  "kept_filled df t =
     map (\<lambda>nc. (fst nc, col_bfill (col_ffill (snd nc))))
       (filter (\<lambda>nc. \<not> exceeds (isna_mean (snd nc)) t) (columns df))"

definition kept_mask :: "frame \<Rightarrow> pyfloat \<Rightarrow> bool list" where
  "kept_mask df t =
     map (\<lambda>i. list_all (\<lambda>nc. \<not> col_isna (snd nc) ! i) (kept_filled df t)) [0..<length (index df)]"

text \<open>
  The same function on a store of frame objects, as the source runs it: \<^verbatim>\<open>df.copy()\<close>
  allocates a new object, \<^verbatim>\<open>drop(..., inplace=True)\<close> and \<^verbatim>\<open>dropna(..., inplace=True)\<close>
  overwrite the object \<^verbatim>\<open>clean_df\<close> refers to, \<^verbatim>\<open>ffill()\<close>, \<^verbatim>\<open>bfill()\<close> and
  \<^verbatim>\<open>clean_df[numeric_cols]\<close> allocate their results, and \<^verbatim>\<open>print\<close> appends a line to
  the console.
\<close>

datatype line = CleanedShape "nat \<times> nat"

record pystate =
  heap :: "nat \<Rightarrow> frame"
  next_ref :: nat
  console :: "line list"

definition alloc :: "frame \<Rightarrow> pystate \<Rightarrow> nat \<times> pystate" where
  "alloc f s = (next_ref s, s\<lparr>heap := (heap s)(next_ref s := f), next_ref := Suc (next_ref s)\<rparr>)"

definition update_inplace :: "nat \<Rightarrow> (frame \<Rightarrow> frame) \<Rightarrow> pystate \<Rightarrow> pystate" where
  "update_inplace r f s = s\<lparr>heap := (heap s)(r := f (heap s r))\<rparr>"

definition print_line :: "line \<Rightarrow> pystate \<Rightarrow> pystate" where
  "print_line l s = s\<lparr>console := console s @ [l]\<rparr>"

definition clean_quarterly_data_st :: "nat \<Rightarrow> pyfloat \<Rightarrow> pystate \<Rightarrow> (error + nat) \<times> pystate" where
  "clean_quarterly_data_st df col_thresh s =
     (let (clean_df, s) = alloc (heap s df) s
      in case drop_cols (heap s clean_df) col_thresh (colnames (heap s clean_df)) of
           Inl e \<Rightarrow> (Inl e, s)
         | Inr ds \<Rightarrow>
             (let s = update_inplace clean_df (\<lambda>f. drop_columns f ds) s;
                  (filled, s) = alloc (ffill (heap s clean_df)) s;
                  (clean_df, s) = alloc (bfill (heap s filled)) s;
                  s = update_inplace clean_df dropna_any s;
                  names = numeric_cols (heap s clean_df);
                  (clean_df, s) = alloc (getitem_list (heap s clean_df) names) s;
                  s = print_line (CleanedShape (shape (heap s clean_df))) s
              in (Inr clean_df, s)))"

text \<open>The frame a call returns: the object its result refers to in the final store.\<close>

definition clean_returned :: "nat \<Rightarrow> pyfloat \<Rightarrow> pystate \<Rightarrow> error + frame" where
  "clean_returned df t s =
     (let (res, s') = clean_quarterly_data_st df t s in map_sum id (heap s') res)"

section \<open>Dataset preparation\<close>

text \<open>
  A slice bound on a sequence of length \<open>n\<close>: a negative bound counts from the end, and
  every bound is clipped to \<open>[0, n]\<close>.
\<close>

definition clip_index :: "nat \<Rightarrow> int \<Rightarrow> nat" where
  "clip_index n k = (if k < 0 then nat (max 0 (int n + k)) else min n (nat k))"

text \<open>\<^verbatim>\<open>xs[:k]\<close> and \<^verbatim>\<open>xs[k:]\<close>.\<close>

definition slice_to :: "'a list \<Rightarrow> int \<Rightarrow> 'a list" where
  "slice_to xs k = take (clip_index (length xs) k) xs"

definition slice_from :: "'a list \<Rightarrow> int \<Rightarrow> 'a list" where
  "slice_from xs k = drop (clip_index (length xs) k) xs"

text \<open>\<^verbatim>\<open>df.values\<close>: the two-dimensional array of the frame, one list per row.\<close>

definition frame_values :: "frame \<Rightarrow> matrix" where
  "frame_values df =
     map (\<lambda>i. map (\<lambda>nc. col_cells (snd nc) ! i) (columns df)) [0..<length (index df)]"

text \<open>
  \<^verbatim>\<open>class EconomicDataset(Dataset)\<close>: wraps the array (the conversion to 32-bit floats
  is not modelled), with \<^verbatim>\<open>__len__\<close> and \<^verbatim>\<open>__getitem__\<close>.
\<close>

datatype EconomicDataset = EconomicDataset (data: matrix)

definition dataset_len :: "EconomicDataset \<Rightarrow> nat" where
  "dataset_len d = length (data d)"

definition dataset_getitem :: "EconomicDataset \<Rightarrow> int \<Rightarrow> cell list option" where
  "dataset_getitem d idx =
     (let n = int (length (data d)); j = (if idx < 0 then n + idx else idx)
      in if 0 \<le> j \<and> j < n then Some (data d ! nat j) else None)"

text \<open>A \<^verbatim>\<open>DataLoader\<close> is the record of its constructor's arguments.\<close>

record loader =
  dataset :: EconomicDataset
  batch_size :: int
  shuffle :: bool

record 's prepared =
  train_loader :: loader
  test_loader :: loader
  scaler :: 's
  feature_names :: "string list"

text \<open>
  The external collaborators of \<^verbatim>\<open>prepare_data\<close> are parameters: \<^verbatim>\<open>pd.read_csv\<close>
  (\<open>None\<close> when it raises), \<^verbatim>\<open>StandardScaler().fit_transform\<close> (the fitted scaler of an
  abstract type \<open>'s\<close> and the scaled array, \<open>None\<close> when it raises) and whether the
  \<^verbatim>\<open>DataLoader\<close> constructor accepts its arguments.
\<close>

record 's externals =
  read_csv :: "string \<Rightarrow> frame option"
  fit_transform :: "matrix \<Rightarrow> ('s \<times> matrix) option"
  loader_accepts :: "EconomicDataset \<Rightarrow> int \<Rightarrow> bool \<Rightarrow> bool"

text \<open>
  \<^verbatim>\<open>split_idx = int((1 - test_size) * len(scaled_data))\<close>: a float subtraction, a float
  multiplication by the length converted to a float, and a truncation.
\<close>

definition split_idx :: "pyfloat \<Rightarrow> nat \<Rightarrow> error + int" where
  "split_idx test_size n = py_int (fmul (fsub (Fin 1) test_size) (float_of_nat n))"

text \<open>
  \<^verbatim>\<open>prepare_data(csv_path, test_size, batch_size)\<close>, with \<^verbatim>\<open>test_size\<close> a float; the
  threshold \<^verbatim>\<open>0.3\<close> is the float nearest to 3/10. Its four \<^verbatim>\<open>print\<close> statements are
  console diagnostics and are left out of the value it computes.
\<close>

definition prepare_data :: "'s externals \<Rightarrow> string \<Rightarrow> pyfloat \<Rightarrow> int \<Rightarrow> error + 's prepared" where
  "prepare_data ext csv_path test_size batch_sz =
     (case read_csv ext csv_path of
        None \<Rightarrow> Inl ReadCsvFailed
      | Some df \<Rightarrow>
          (let names = colnames df
           in case clean_quarterly_data df (fl (3 / 10)) of
                Inl e \<Rightarrow> Inl e
              | Inr cleaned_df \<Rightarrow>
                  (case fit_transform ext (frame_values cleaned_df) of
                     None \<Rightarrow> Inl FitTransformFailed
                   | Some (fitted, scaled_data) \<Rightarrow>
                       (case split_idx test_size (length scaled_data) of
                          Inl e \<Rightarrow> Inl e
                        | Inr k \<Rightarrow>
                            (let train_data = slice_to scaled_data k;
                                 test_data = slice_from scaled_data k;
                                 train_dataset = EconomicDataset train_data;
                                 test_dataset = EconomicDataset test_data
                             in if \<not> loader_accepts ext train_dataset batch_sz True
                                then Inl DataLoaderFailed
                                else if \<not> loader_accepts ext test_dataset batch_sz False
                                then Inl DataLoaderFailed
                                else Inr \<lparr>train_loader =
                                            \<lparr>dataset = train_dataset, batch_size = batch_sz,
                                               shuffle = True\<rparr>,
                                          test_loader =
                                            \<lparr>dataset = test_dataset, batch_size = batch_sz,
                                               shuffle = False\<rparr>,
                                          scaler = fitted,
                                          feature_names = names\<rparr>)))))"

text \<open>
  What the call returns when it returns: the two loaders over the slices of the scaled
  array at a split index, the fitted scaler and the column labels of the input.
\<close>

definition loaders_over :: "matrix \<Rightarrow> int \<Rightarrow> int \<Rightarrow> 's \<Rightarrow> string list \<Rightarrow> 's prepared" where
  "loaders_over scaled k bs sc names =
     \<lparr>train_loader = \<lparr>dataset = EconomicDataset (slice_to scaled k), batch_size = bs, shuffle = True\<rparr>,
      test_loader = \<lparr>dataset = EconomicDataset (slice_from scaled k), batch_size = bs, shuffle = False\<rparr>,
      scaler = sc, feature_names = names\<rparr>"

section \<open>Fetching and assembling the panel\<close>

text \<open>
  A series of the provider: (date, value) pairs in the provider's order, \<open>None\<close> is NaN.
  Its values are floats, and the column it becomes is a float64 column (the dtype pandas
  gives a series without any observation is not modelled). \<^verbatim>\<open>fred.get_series\<close> is a
  parameter, a function of the series id and the request parameters: \<open>None\<close> when the
  request raises.
\<close>

type_synonym series = "(label \<times> rat option) list"

type_synonym provider = "string \<Rightarrow> (string \<times> string) list \<Rightarrow> series option"

type_synonym catalog = "(string \<times> (string \<times> string) list) list"

text \<open>The catalog of the source, \<^verbatim>\<open>series_map\<close>, in its declared order.\<close>

definition SERIES_MAP :: catalog where
  "SERIES_MAP =
     [(''GDP and Economic Growth'',
        [(''GDPC1'', ''Real_GDP''),
         (''A939RX0Q048SBEA'', ''Real_Disposable_Income''),
         (''PCE'', ''Personal_Consumption'')]),
      (''Labor Market'',
        [(''UNRATE'', ''Unemployment_Rate''),
         (''PAYEMS'', ''Nonfarm_Payrolls''),
         (''CES0500000003'', ''Avg_Hourly_Earnings''),
         (''LNS11300060'', ''U6_Unemployment''),
         (''JTSJOL'', ''Job_Openings''),
         (''LNS12300060'', ''Labor_Force_Participation'')]),
      (''Inflation and Prices'',
        [(''CPIAUCSL'', ''CPI_All_Items''),
         (''CPILFESL'', ''Core_CPI''),
         (''PPIACO'', ''Producer_Price_Index''),
         (''PCEPILFE'', ''Core_PCE_Price_Index'')]),
      (''Monetary Policy and Finance'',
        [(''FEDFUNDS'', ''Federal_Funds_Rate''),
         (''DGS10'', ''10Y_Treasury_Yield''),
         (''M2SL'', ''M2_Money_Stock''),
         (''WALCL'', ''Fed_Balance_Sheet''),
         (''DTB3'', ''3M_Treasury_Yield''),
         (''MORTGAGE30US'', ''30Y_Mortgage_Rate''),
         (''T10YIE'', ''10Y_Inflation_Expect''),
         (''USD3MTD156N'', ''3M_LIBOR'')]),
      (''Financial Markets'',
        [(''SP500'', ''S&P_500_Index''),
         (''VIXCLS'', ''VIX_Index''),
         (''DTWEXB'', ''Dollar_Index''),
         (''DEXUSEU'', ''USD_EUR_Rate''),
         (''GOLDAMGBD228NLBM'', ''Gold_Price'')]),
      (''Production and Business Activity'',
        [(''INDPRO'', ''Industrial_Production''),
         (''TCU'', ''Capacity_Utilization''),
         (''IPB51100N'', ''Business_Equipment_Prod''),
         (''IPG211S'', ''Energy_Production''),
         (''IPCONGD'', ''Consumer_Goods_Prod''),
         (''AMTMNO'', ''New_Manufacturing_Orders'')]),
      (''Consumer Behavior'',
        [(''UMCSENT'', ''Consumer_Sentiment''),
         (''RSAFS'', ''Retail_Sales''),
         (''PSAVERT'', ''Personal_Saving_Rate''),
         (''TOTALSL'', ''Consumer_Credit''),
         (''RRSFS'', ''Retail_Sales_Food_Services'')]),
      (''Housing Market'',
        [(''HOUST'', ''Housing_Starts''),
         (''CSUSHPINSA'', ''Case_Shiller_Home_Price''),
         (''MSPUS'', ''Median_Home_Price''),
         (''HSN1F'', ''New_Home_Sales''),
         (''BPPRIV'', ''Building_Permits'')]),
      (''International Trade'',
        [(''BOPGSTB'', ''Trade_Balance''),
         (''XTEXVA01USM667S'', ''Exports''),
         (''XTIMVA01USM667S'', ''Imports'')]),
      (''Banking and Credit'',
        [(''REALLN'', ''Commercial_Loans''),
         (''TOTCI'', ''C&I_Loans''),
         (''EXCSRESNW'', ''Excess_Reserves'')]),
      (''Energy and Commodities'',
        [(''DCOILWTICO'', ''Crude_Oil_Price'')]),
      (''Regional Indicators'',
        [(''NYUR'', ''NY_Unemployment''),
         (''CASACBW027SBOG'', ''CA_Commercial_Loans'')]),
      (''Economic Indices'',
        [(''USALOLITONOSTSAM'', ''Leading_Index''),
         (''STLFSI4'', ''Financial_Stress_Index''),
         (''WABSI'', ''Bank_Stress_Index'')])]"

text \<open>
  Reindexing a column without rows onto \<open>n\<close> rows fills it with NaN: int64 becomes
  float64 and bool becomes object.
\<close>

fun col_all_na :: "nat \<Rightarrow> coldata \<Rightarrow> coldata" where
  "col_all_na n (IntCol xs) = FloatCol (replicate n None)"
| "col_all_na n (FloatCol xs) = FloatCol (replicate n None)"
| "col_all_na n (BoolCol xs) = ObjCol (replicate n None)"
| "col_all_na n (ObjCol xs) = ObjCol (replicate n None)"

text \<open>
  \<^verbatim>\<open>df[name] = series\<close>, as pandas runs it. A frame whose index has no rows adopts the
  index of a non-empty value, filling its present columns with NaN. Then the value is
  aligned: taken as it is when its index equals the frame's (or the frame has no rows),
  reindexed onto the frame's index otherwise, which raises when the value's index has
  duplicates. An assignment to a present label replaces that column in place; a new
  label is appended.
\<close>

definition ensure_valid_index :: "frame \<Rightarrow> series \<Rightarrow> frame" where
  "ensure_valid_index df s =
     (if index df = [] \<and> s \<noteq> []
      then \<lparr>index = map fst s,
            columns = map (\<lambda>nc. (fst nc, col_all_na (length s) (snd nc))) (columns df)\<rparr>
      else df)"

definition lookup_date :: "series \<Rightarrow> label \<Rightarrow> rat option" where
  "lookup_date s d = (case map_of s d of None \<Rightarrow> None | Some v \<Rightarrow> v)"

definition reindex_for_setitem :: "series \<Rightarrow> frame \<Rightarrow> error + rat option list" where
  "reindex_for_setitem s df =
     (if map fst s = index df \<or> index df = [] then Inr (map snd s)
      else if distinct (map fst s) then Inr (map (lookup_date s) (index df))
      else Inl DuplicateLabels)"

definition set_column :: "frame \<Rightarrow> string \<Rightarrow> coldata \<Rightarrow> frame" where
  "set_column df name c =
     (if name \<in> set (colnames df)
      then df\<lparr>columns := map (\<lambda>nc. if fst nc = name then (name, c) else nc) (columns df)\<rparr>
      else df\<lparr>columns := columns df @ [(name, c)]\<rparr>)"

definition setitem :: "frame \<Rightarrow> string \<Rightarrow> series \<Rightarrow> error + frame" where
  "setitem df name s =
     (let df = ensure_valid_index df s
      in case reindex_for_setitem s df of
           Inl e \<Rightarrow> Inl e
         | Inr vals \<Rightarrow> Inr (set_column df name (FloatCol vals)))"

text \<open>
  What the fetch loop does, in order: a request to the provider, a console line, a
  pause (in milliseconds; \<^verbatim>\<open>time.sleep(0.2)\<close> is \<open>Sleep 200\<close>).
\<close>

datatype event =
    Request string
  | PrintAdded string string
  | PrintFailed string string
  | Sleep nat

record collect_state =
  panel :: frame
  trace :: "event list"

definition emit :: "event list \<Rightarrow> collect_state \<Rightarrow> collect_state" where
  "emit es st = st\<lparr>trace := trace st @ es\<rparr>"

definition params :: "(string \<times> string) list" where
  "params = [(''frequency'', ''q''), (''aggregation_method'', ''avg'')]"

text \<open>
  The body of the inner loop: the \<^verbatim>\<open>try\<close> block fetches, assigns the column, prints
  and sleeps; any exception of the fetch or of the assignment lands in the
  \<^verbatim>\<open>except\<close> block, which only prints.
\<close>

definition collect_one :: "provider \<Rightarrow> string \<times> string \<Rightarrow> collect_state \<Rightarrow> collect_state" where
  "collect_one fred e st =
     (let series_id = fst e; series_name = snd e; st = emit [Request series_id] st
      in case fred series_id params of
           None \<Rightarrow> emit [PrintFailed series_name series_id] st
         | Some s \<Rightarrow>
             (case setitem (panel st) series_name s of
                Inl err \<Rightarrow> emit [PrintFailed series_name series_id] st
              | Inr df \<Rightarrow>
                  emit [PrintAdded series_name series_id, Sleep 200] (st\<lparr>panel := df\<rparr>)))"

fun collect_series :: "provider \<Rightarrow> (string \<times> string) list \<Rightarrow> collect_state \<Rightarrow> collect_state" where
  "collect_series fred [] st = st"
| "collect_series fred (e # es) st = collect_series fred es (collect_one fred e st)"

fun collect_categories :: "provider \<Rightarrow> catalog \<Rightarrow> collect_state \<Rightarrow> collect_state" where
  "collect_categories fred [] st = st"
| "collect_categories fred (c # cs) st =
     collect_categories fred cs (collect_series fred (snd c) st)"

definition collect_run :: "provider \<Rightarrow> catalog \<Rightarrow> collect_state" where
  "collect_run fred series_map =
     collect_categories fred series_map \<lparr>panel = \<lparr>index = [], columns = []\<rparr>, trace = []\<rparr>"

definition collect_data :: "provider \<Rightarrow> catalog \<Rightarrow> frame" where
  "collect_data fred series_map = panel (collect_run fred series_map)"

text \<open>
  Notions the statements about the fetch loop use: the entries of a catalog in iteration
  order, whether the provider answers an entry, the series it answers with, the first
  of them and the first non-empty one, and the catalog without the entries the provider
  fails on.
\<close>

definition catalog_entries :: "catalog \<Rightarrow> (string \<times> string) list" where
  "catalog_entries series_map = concat (map snd series_map)"

definition fetched :: "provider \<Rightarrow> string \<times> string \<Rightarrow> bool" where
  "fetched fred e = (fred (fst e) params \<noteq> None)"

definition fetched_series :: "provider \<Rightarrow> (string \<times> string) list \<Rightarrow> series list" where
  "fetched_series fred es = List.map_filter (\<lambda>e. fred (fst e) params) es"

definition first_fetched :: "provider \<Rightarrow> catalog \<Rightarrow> series option" where
  "first_fetched fred series_map =
     (case fetched_series fred (catalog_entries series_map) of [] \<Rightarrow> None | s # ss \<Rightarrow> Some s)"

definition first_nonempty_fetched :: "provider \<Rightarrow> catalog \<Rightarrow> series option" where
  "first_nonempty_fetched fred series_map =
     find (\<lambda>s. s \<noteq> []) (fetched_series fred (catalog_entries series_map))"

definition without_failures :: "provider \<Rightarrow> catalog \<Rightarrow> catalog" where
  "without_failures fred series_map =
     map (\<lambda>c. (fst c, filter (fetched fred) (snd c))) series_map"

text \<open>
  No series the provider answers an entry with has two observations of one date
  (\<^verbatim>\<open>fredapi\<close> builds a series from a dictionary keyed by date).
\<close>

definition unique_dates :: "provider \<Rightarrow> (string \<times> string) list \<Rightarrow> bool" where
  "unique_dates fred es =
     list_all (\<lambda>e. case fred (fst e) params of None \<Rightarrow> True | Some s \<Rightarrow> distinct (map fst s)) es"

text \<open>
  The rate-limit property of a trace: after every request a pause of at least 200
  milliseconds comes before the next request (and before the end of the run).
\<close>

fun pause_follows :: "event list \<Rightarrow> bool" where
  "pause_follows [] = False"
| "pause_follows (Request sid # es) = False"
| "pause_follows (Sleep ms # es) = (200 \<le> ms \<or> pause_follows es)"
| "pause_follows (e # es) = pause_follows es"

fun paused_after_every_request :: "event list \<Rightarrow> bool" where
  "paused_after_every_request [] = True"
| "paused_after_every_request (Request sid # es) = (pause_follows es \<and> paused_after_every_request es)"
| "paused_after_every_request (e # es) = paused_after_every_request es"

text \<open>
  What one iteration of the loop does to the panel, whatever the trace: a failed fetch
  or a failed assignment leaves it as it was.
\<close>

definition assign :: "provider \<Rightarrow> string \<times> string \<Rightarrow> frame \<Rightarrow> frame" where
  "assign fred e df =
     (case fred (fst e) params of
        None \<Rightarrow> df
      | Some s \<Rightarrow> (case setitem df (snd e) s of Inl err \<Rightarrow> df | Inr df' \<Rightarrow> df'))"


text \<open>
  Every column of the panel is the series of a catalog entry with that display name,
  read at the dates of the panel's index (NaN where the series has no observation);
  while the panel has no rows, only series without observations have been assigned.
\<close>

definition aligned :: "provider \<Rightarrow> (string \<times> string) list \<Rightarrow> frame \<Rightarrow> bool" where
  "aligned fred es df =
     (\<forall>nc\<in>set (columns df). \<exists>e\<in>set es. \<exists>s.
        snd e = fst nc \<and> fred (fst e) params = Some s \<and>
        snd nc = FloatCol (map (lookup_date s) (index df)) \<and> (index df = [] \<longrightarrow> s = []))"

text \<open>
  A column holds a series at the dates of an index: it is a float64 column with one
  value per date of the index, the value the series has at that date when the series
  has an observation of the date, and NaN when it has none.
\<close>

definition holds_series :: "series \<Rightarrow> label list \<Rightarrow> coldata \<Rightarrow> bool" where
  "holds_series s idx c =
     (case c of
        FloatCol vals \<Rightarrow>
          list_all2 (\<lambda>d v. if d \<in> fst ` set s then (d, v) \<in> set s else v = None) idx vals
      | _ \<Rightarrow> False)"


section \<open>Concrete inputs\<close>

text \<open>
  A panel of four quarters as \<^verbatim>\<open>read_csv\<close> returns it: a text column of dates, a series
  with a leading gap, a series missing in half of its rows, and a complete integer
  series; and what the cleaning returns for it at the threshold 0.3.
\<close>

definition panel_ex :: frame where
  "panel_ex =
     \<lparr>index = [0, 1, 2, 3],
      columns =
        [(''date'', ObjCol [Some (PStr ''2020Q1''), Some (PStr ''2020Q2''),
                             Some (PStr ''2020Q3''), Some (PStr ''2020Q4'')]),
         (''Real_GDP'', FloatCol [None, Some 2, Some 3, Some 4]),
         (''Job_Openings'', FloatCol [None, None, Some 7, Some 8]),
         (''Nonfarm_Payrolls'', IntCol [10, 11, 12, 13])]\<rparr>"

definition panel_ex_clean :: frame where
  "panel_ex_clean =
     \<lparr>index = [0, 1, 2, 3],
      columns =
        [(''Real_GDP'', FloatCol [Some 2, Some 2, Some 3, Some 4]),
         (''Nonfarm_Payrolls'', IntCol [10, 11, 12, 13])]\<rparr>"

text \<open>
  A panel with a series that was never observed. At the threshold 1 the column is kept
  (its missing fraction does not exceed 1), no fill can close it, and every row goes.
\<close>

definition panel_gap :: frame where
  "panel_gap =
     \<lparr>index = [0, 1, 2],
      columns =
        [(''Real_GDP'', FloatCol [Some 1, None, Some 3]),
         (''Excess_Reserves'', FloatCol [None, None, None])]\<rparr>"

definition panel_gap_clean :: frame where
  "panel_gap_clean =
     \<lparr>index = [],
      columns = [(''Real_GDP'', FloatCol []), (''Excess_Reserves'', FloatCol [])]\<rparr>"



text \<open>A store whose only object is \<open>panel_ex\<close>, at address 0.\<close>

definition store_ex :: pystate where
  "store_ex =
     \<lparr>heap = (\<lambda>_. \<lparr>index = [], columns = []\<rparr>)(0 := panel_ex), next_ref = 1, console = []\<rparr>"

text \<open>
  Files and libraries for \<^verbatim>\<open>prepare_data\<close>. Three files: a panel of two quarters, a
  panel of a hundred quarters alternating between 1 and 3, and a file with a text
  column only. The scaler is tabulated on the arrays it meets here: it rejects an array
  without rows or without columns, as \<^verbatim>\<open>StandardScaler\<close> does, and standardizes the
  columns of 1s and 3s (mean 2, scale 1) to -1s and 1s. The loader constructor rejects
  a non-positive batch size and a shuffled loader over no rows, as \<^verbatim>\<open>DataLoader\<close> does.
\<close>

definition panel_two :: frame where
  "panel_two = \<lparr>index = [0, 1], columns = [(''Real_GDP'', FloatCol [Some 1, Some 3])]\<rparr>"

definition panel_hundred :: frame where
  "panel_hundred =
     \<lparr>index = map int [0..<100],
      columns = [(''Real_GDP'', FloatCol (concat (replicate 50 [Some 1, Some 3])))]\<rparr>"

definition panel_text :: frame where
  "panel_text =
     \<lparr>index = [0, 1], columns = [(''label'', ObjCol [Some (PStr ''a''), Some (PStr ''b'')])]\<rparr>"

definition scaled_hundred :: matrix where
  "scaled_hundred = concat (replicate 50 [[CFloat (Some (- 1))], [CFloat (Some 1)]])"

definition scaler_ex :: "matrix \<Rightarrow> ((rat list \<times> rat list) \<times> matrix) option" where
  "scaler_ex m =
     (if m = [] \<or> [] \<in> set m then None
      else if m = [[CFloat (Some 1)], [CFloat (Some 3)]]
      then Some (([2], [1]), [[CFloat (Some (- 1))], [CFloat (Some 1)]])
      else if m = concat (replicate 50 [[CFloat (Some 1)], [CFloat (Some 3)]])
      then Some (([2], [1]), scaled_hundred)
      else None)"

definition ext_ex :: "(rat list \<times> rat list) externals" where
  "ext_ex =
     \<lparr>read_csv = (\<lambda>path.
        if path = ''two.csv'' then Some panel_two
        else if path = ''hundred.csv'' then Some panel_hundred
        else if path = ''text.csv'' then Some panel_text
        else None),
      fit_transform = scaler_ex,
      loader_accepts = (\<lambda>d b sh. 0 < b \<and> (data d \<noteq> [] \<or> \<not> sh))\<rparr>"

text \<open>
  Providers and catalogs for the fetch loop. \<open>fred_partial\<close> fails on the first series
  of \<open>catalog_ex\<close> and answers the two others, the second of which starts a quarter
  later and ends a quarter later than the first. \<open>fred_empty_first\<close> answers the
  first series with no observation at all.
\<close>

definition catalog_ex :: catalog where
  "catalog_ex =
     [(''GDP and Economic Growth'', [(''GDPC1'', ''Real_GDP''), (''PCE'', ''Personal_Consumption'')]),
      (''Labor Market'', [(''UNRATE'', ''Unemployment_Rate'')])]"

definition fred_partial :: provider where
  "fred_partial sid ps =
     (if sid = ''PCE'' then Some [(1, Some 10), (2, Some 11), (3, None)]
      else if sid = ''UNRATE'' then Some [(2, Some 4), (3, Some 5), (4, Some 6)]
      else None)"

definition fred_empty_first :: provider where
  "fred_empty_first sid ps =
     (if sid = ''GDPC1'' then Some []
      else if sid = ''PCE'' then Some [(1, Some 10), (2, Some 11)]
      else None)"

section \<open>Properties of the floats\<close>

lemma overflow_bound_eq: "overflow_bound = 2 ^ 1024"
  by (simp add: overflow_bound_def)

lemma round_half_even_of_int [simp]: "round_half_even (of_int i) = i"
  by (simp add: round_half_even_def)

lemma round_half_even_nonneg: "0 \<le> x \<Longrightarrow> 0 \<le> round_half_even x"
  by (auto simp: round_half_even_def Let_def)

lemma round_half_even_le:
  assumes "x \<le> of_int z"
  shows "round_half_even x \<le> z"
proof -
  have f: "\<lfloor>x\<rfloor> \<le> z" using assms by (simp add: floor_le_iff)
  show ?thesis
  proof (cases "x = of_int \<lfloor>x\<rfloor>")
    case True
    then have "round_half_even x = \<lfloor>x\<rfloor>"
      by (metis round_half_even_of_int)
    with f show ?thesis by simp
  next
    case False
    moreover have "of_int \<lfloor>x\<rfloor> \<le> x" by (rule of_int_floor_le)
    ultimately have "of_int \<lfloor>x\<rfloor> < x" by (metis less_le)
    with assms have "of_int \<lfloor>x\<rfloor> < (of_int z :: rat)" by simp
    then have "\<lfloor>x\<rfloor> < z" by simp
    then show ?thesis by (auto simp: round_half_even_def Let_def)
  qed
qed

lemma round_pos_nonneg: "0 \<le> q \<Longrightarrow> 0 \<le> round_pos q"
  by (auto simp: round_pos_def Let_def round_half_even_nonneg intro!: divide_nonneg_nonneg mult_nonneg_nonneg)

lemma round_pos_le:
  assumes "q \<le> of_int z" and "z < 2 ^ 53"
  shows "round_pos q \<le> of_int z"
proof -
  from assms have q: "q < 2 ^ 53"
    by (metis le_less_trans of_int_less_iff of_int_numeral of_int_power)
  define s where "s = nat (min (52 - ilog2 q) 1074)"
  have "q * 2 ^ s \<le> of_int (z * 2 ^ s)"
    using assms(1) by (simp add: mult_right_mono)
  then have "round_half_even (q * 2 ^ s) \<le> z * 2 ^ s"
    by (rule round_half_even_le)
  then have "(of_int (round_half_even (q * 2 ^ s)) :: rat) \<le> of_int (z * 2 ^ s)"
    by (simp only: of_int_le_iff)
  then have "of_int (round_half_even (q * 2 ^ s)) / 2 ^ s \<le> (of_int z :: rat)"
    by (simp add: divide_le_eq)
  with q show ?thesis by (simp add: round_pos_def Let_def s_def)
qed

lemma round_pos_of_nat:
  assumes "n < 2 ^ 53"
  shows "round_pos (of_nat n) = of_nat n"
proof -
  from assms have q: "(of_nat n :: rat) < 2 ^ 53"
    by (metis of_nat_less_iff of_nat_numeral of_nat_power)
  define s where "s = nat (min (52 - ilog2 (of_nat n)) 1074)"
  have "(of_nat n :: rat) * 2 ^ s = of_int (int n * 2 ^ s)" by simp
  then have "round_half_even (of_nat n * 2 ^ s) = int n * 2 ^ s"
    by (simp only: round_half_even_of_int)
  with q show ?thesis by (simp add: round_pos_def Let_def s_def)
qed

lemma fl_bounded:
  assumes "0 \<le> q" and "q \<le> of_int z" and "z < 2 ^ 53"
  shows "\<exists>y. fl q = Fin y \<and> 0 \<le> y \<and> y \<le> of_int z"
proof (cases "q = 0")
  case True
  with assms show ?thesis by (simp add: fl_def overflow_bound_def)
next
  case False
  with assms have pos: "0 < q" by simp
  have lo: "0 \<le> round_pos q" using assms(1) by (rule round_pos_nonneg)
  have hi: "round_pos q \<le> of_int z" using assms(2,3) by (rule round_pos_le)
  from assms(3) have "(of_int z :: rat) < 2 ^ 53"
    by (metis of_int_less_iff of_int_numeral of_int_power)
  with hi have "round_pos q < overflow_bound" by (simp add: overflow_bound_def)
  with pos lo hi show ?thesis by (simp add: fl_def Let_def overflow_bound_def)
qed

lemma fl_of_nat:
  assumes "n < 2 ^ 53"
  shows "fl (of_nat n) = Fin (of_nat n)"
proof -
  from assms have "(of_nat n :: rat) < 2 ^ 53"
    by (metis of_nat_less_iff of_nat_numeral of_nat_power)
  then show ?thesis
    using round_pos_of_nat[OF assms] by (simp add: fl_def Let_def overflow_bound_def)
qed

text \<open>
  The model on some decimal literals: 0.3, 0.2, 0.8, 1/3 and 0.3333333333333333 (the
  last two are the same float), and on numbers that need no or a coarser rounding.
\<close>

lemma fl_known_values:
  "fl (3 / 10) = Fin (5404319552844595 / 18014398509481984)"
  "fl (1 / 5) = Fin (3602879701896397 / 18014398509481984)"
  "fl (4 / 5) = Fin (3602879701896397 / 4503599627370496)"
  "fl (1 / 3) = Fin (6004799503160661 / 18014398509481984)"
  "fl (3333333333333333 / 10000000000000000) = Fin (6004799503160661 / 18014398509481984)"
  "fl 0 = Fin 0"
  "fl 1 = Fin 1"
  "fl (2 ^ 53 + 1) = Fin (2 ^ 53)"
  "fl (- (1 / 10)) = Fin (- (3602879701896397 / 36028797018963968))"
  by code_simp+

lemma fl_zero [simp]: "fl 0 = Fin 0"
  by (simp add: fl_def overflow_bound_def)

text \<open>The float comparison: never above itself, and above everything a smaller number is above.\<close>

lemma exceeds_irrefl [simp]: "\<not> exceeds x x"
  by (cases x) (simp_all add: exceeds_def)

lemma exceeds_NaN [simp]: "\<not> exceeds NaN t" "\<not> exceeds x NaN"
  by (cases x; simp add: exceeds_def)+

lemma exceeds_Fin [simp]: "exceeds (Fin a) (Fin b) \<longleftrightarrow> b < a"
  by (simp add: exceeds_def)

lemma exceeds_mono: "exceeds (Fin a) t \<Longrightarrow> a \<le> b \<Longrightarrow> exceeds (Fin b) t"
  by (cases t) (simp_all add: exceeds_def)

text \<open>The mean of a mask is NaN on the empty mask and a float between 0 and 1 otherwise.\<close>

lemma mask_mean_range:
  assumes "m \<noteq> []"
  shows "\<exists>f. mask_mean m = Fin f \<and> 0 \<le> f \<and> f \<le> 1"
proof -
  let ?q = "(of_nat (length (filter (\<lambda>b. b) m)) :: rat) / of_nat (length m)"
  have "length (filter (\<lambda>b. b) m) \<le> length m" by simp
  then have "(of_nat (length (filter (\<lambda>b. b) m)) :: rat) \<le> of_nat (length m)"
    by (simp only: of_nat_le_iff)
  moreover from assms have "(0::rat) < of_nat (length m)" by simp
  ultimately have "?q \<le> of_int 1" by (simp add: divide_le_eq)
  moreover have "0 \<le> ?q" by simp
  ultimately have "\<exists>y. fl ?q = Fin y \<and> 0 \<le> y \<and> y \<le> of_int 1"
    by (intro fl_bounded) simp_all
  with assms show ?thesis by (simp add: mask_mean_def)
qed

lemma mask_mean_all_False:
  assumes "True \<notin> set m"
  shows "mask_mean m = (if m = [] then NaN else Fin 0)"
proof -
  from assms have "filter (\<lambda>b. b) m = []"
    by (auto simp: filter_empty_conv)
  then show ?thesis by (simp add: mask_mean_def)
qed


section \<open>Properties of the cleaning policy\<close>

subsection \<open>Lists and columns\<close>

lemma ffill_from_id: "None \<notin> set xs \<Longrightarrow> ffill_from p xs = xs"
  by (induction p xs rule: ffill_from.induct) auto

lemma length_ffill_from [simp]: "length (ffill_from p xs) = length xs"
  by (induction p xs rule: ffill_from.induct) auto

lemma ffill_list_id: "None \<notin> set xs \<Longrightarrow> ffill_list xs = xs"
  by (simp add: ffill_list_def ffill_from_id)

lemma bfill_list_id: "None \<notin> set xs \<Longrightarrow> bfill_list xs = xs"
  by (simp add: bfill_list_def ffill_from_id)

lemma col_len_ffill [simp]: "col_len (col_ffill c) = col_len c"
  by (cases c) (simp_all add: ffill_list_def)

lemma col_len_bfill [simp]: "col_len (col_bfill c) = col_len c"
  by (cases c) (simp_all add: bfill_list_def)

lemma is_number_ffill [simp]: "is_number (col_ffill c) = is_number c"
  by (cases c) simp_all

lemma is_number_bfill [simp]: "is_number (col_bfill c) = is_number c"
  by (cases c) simp_all

lemma is_number_select [simp]: "is_number (col_select m c) = is_number c"
  by (cases c) simp_all

lemma length_col_isna [simp]: "length (col_isna c) = col_len c"
  by (cases c) simp_all

lemma col_ffill_id: "True \<notin> set (col_isna c) \<Longrightarrow> col_ffill c = c"
  by (cases c) (auto simp: ffill_list_id image_iff)

lemma col_bfill_id: "True \<notin> set (col_isna c) \<Longrightarrow> col_bfill c = c"
  by (cases c) (auto simp: bfill_list_id image_iff)

lemma select_rows_Nil [simp]: "select_rows [] xs = []" "select_rows m [] = []"
  by (simp_all add: select_rows_def)

lemma select_rows_Cons [simp]:
  "select_rows (b # m) (x # xs) = (if b then x # select_rows m xs else select_rows m xs)"
  by (simp add: select_rows_def)

lemma subseq_select_rows: "subseq (select_rows m xs) xs"
proof (induction m arbitrary: xs)
  case Nil
  then show ?case by simp
next
  case (Cons b m)
  then show ?case by (cases xs) auto
qed

lemma select_rows_all: "length m = length xs \<Longrightarrow> \<forall>b\<in>set m. b \<Longrightarrow> select_rows m xs = xs"
proof (induction m arbitrary: xs)
  case Nil
  then show ?case by simp
next
  case (Cons b m)
  then show ?case by (cases xs) auto
qed

lemma length_select_rows:
  "length m = length xs \<Longrightarrow> length (select_rows m xs) = length (filter (\<lambda>b. b) m)"
proof (induction m arbitrary: xs)
  case Nil
  then show ?case by simp
next
  case (Cons b m)
  then show ?case by (cases xs) auto
qed

lemma select_rows_map: "select_rows m (map f xs) = map f (select_rows m xs)"
proof (induction m arbitrary: xs)
  case Nil
  then show ?case by simp
next
  case (Cons b m)
  then show ?case by (cases xs) auto
qed

lemma set_select_rows:
  "x \<in> set (select_rows m xs) \<Longrightarrow> \<exists>i. i < length xs \<and> i < length m \<and> m ! i \<and> xs ! i = x"
  unfolding select_rows_def by (auto simp: in_set_zip)

lemma col_isna_select: "col_isna (col_select m c) = select_rows m (col_isna c)"
  by (cases c) (simp_all add: select_rows_map)

lemma col_len_select:
  "length m = col_len c \<Longrightarrow> col_len (col_select m c) = length (filter (\<lambda>b. b) m)"
  by (cases c) (simp_all add: length_select_rows)

lemma col_select_all: "length m = col_len c \<Longrightarrow> \<forall>b\<in>set m. b \<Longrightarrow> col_select m c = c"
  by (cases c) (simp_all add: select_rows_all)

subsection \<open>Column labels and the pruning list\<close>

lemma filter_fst_distinct:
  "distinct (map fst xs) \<Longrightarrow> (n, c) \<in> set xs \<Longrightarrow> filter (\<lambda>nc. fst nc = n) xs = [(n, c)]"
proof (induction xs)
  case Nil
  then show ?case by simp
next
  case (Cons x xs)
  then show ?case by (force simp: filter_empty_conv image_iff)
qed

lemma getitem_distinct:
  "distinct (colnames df) \<Longrightarrow> (n, c) \<in> set (columns df) \<Longrightarrow> getitem df n = [c]"
  by (simp add: getitem_def colnames_def filter_fst_distinct)

lemma single_filter_distinct:
  "\<forall>n\<in>set (map fst xs). \<exists>s. map snd (filter (\<lambda>nc. fst nc = n) xs) = [s] \<Longrightarrow> distinct (map fst xs)"
proof (induction xs)
  case Nil
  then show ?case by simp
next
  case (Cons x xs)
  have notin: "fst x \<notin> fst ` set xs"
  proof
    assume "fst x \<in> fst ` set xs"
    then have "filter (\<lambda>nc. fst nc = fst x) xs \<noteq> []"
      by (force simp: filter_empty_conv)
    moreover from Cons.prems have "\<exists>s. map snd (filter (\<lambda>nc. fst nc = fst x) (x # xs)) = [s]"
      by simp
    ultimately show False by simp
  qed
  have "\<forall>n\<in>set (map fst xs). \<exists>s. map snd (filter (\<lambda>nc. fst nc = n) xs) = [s]"
  proof
    fix n assume n: "n \<in> set (map fst xs)"
    with notin have "fst x \<noteq> n" by auto
    moreover from n have "n \<in> set (map fst (x # xs))" by simp
    with Cons.prems have "\<exists>s. map snd (filter (\<lambda>nc. fst nc = n) (x # xs)) = [s]"
      by blast
    ultimately show "\<exists>s. map snd (filter (\<lambda>nc. fst nc = n) xs) = [s]" by simp
  qed
  with Cons.IH have "distinct (map fst xs)" by blast
  with notin show ?case by simp
qed

lemma unique_labels_iff:
  "(\<forall>n\<in>set (colnames df). \<exists>s. getitem df n = [s]) \<longleftrightarrow> distinct (colnames df)"
proof
  assume "\<forall>n\<in>set (colnames df). \<exists>s. getitem df n = [s]"
  then show "distinct (colnames df)"
    unfolding colnames_def getitem_def by (rule single_filter_distinct)
next
  assume d: "distinct (colnames df)"
  show "\<forall>n\<in>set (colnames df). \<exists>s. getitem df n = [s]"
  proof
    fix n assume "n \<in> set (colnames df)"
    then obtain c where "(n, c) \<in> set (columns df)" by (auto simp: colnames_def)
    with d show "\<exists>s. getitem df n = [s]" by (auto dest: getitem_distinct)
  qed
qed

lemma drop_cols_eq:
  "drop_cols df t names =
     (if \<forall>n\<in>set names. \<exists>s. getitem df n = [s]
      then Inr (filter (\<lambda>n. exceeds (isna_mean (hd (getitem df n))) t) names)
      else Inl AmbiguousTruthValue)"
proof (induction names)
  case Nil
  then show ?case by simp
next
  case (Cons n names)
  show ?case
  proof (cases "getitem df n")
    case Nil
    then show ?thesis by simp
  next
    case (Cons s ss)
    then show ?thesis using Cons.IH by (cases ss) auto
  qed
qed

text \<open>
  With unique labels, dropping columns by label and selecting columns by label are
  filters on the list of columns.
\<close>

lemma filter_names_cols:
  "distinct (map fst xs) \<Longrightarrow>
   filter (\<lambda>nc. fst nc \<notin> set (filter (\<lambda>n. P (hd (map snd (filter (\<lambda>mc. fst mc = n) xs)))) (map fst xs))) xs
   = filter (\<lambda>nc. \<not> P (snd nc)) xs"
proof (rule filter_cong[OF refl])
  fix x assume d: "distinct (map fst xs)" and x: "x \<in> set xs"
  then have "filter (\<lambda>mc. fst mc = fst x) xs = [x]"
    using filter_fst_distinct[of xs "fst x" "snd x"] by simp
  with x show "(fst x \<notin> set (filter (\<lambda>n. P (hd (map snd (filter (\<lambda>mc. fst mc = n) xs)))) (map fst xs))) = (\<not> P (snd x))"
    by auto
qed

lemma getitem_list_distinct:
  assumes "distinct (map fst xs)"
  shows "concat (map (\<lambda>n. filter (\<lambda>nc. fst nc = n) xs) (map fst (filter P xs))) = filter P xs"
proof -
  have "map ((\<lambda>n. filter (\<lambda>nc. fst nc = n) xs) \<circ> fst) (filter P xs) = map (\<lambda>x. [x]) (filter P xs)"
  proof (rule map_cong[OF refl])
    fix x assume "x \<in> set (filter P xs)"
    then have "x \<in> set xs" by simp
    with assms show "((\<lambda>n. filter (\<lambda>nc. fst nc = n) xs) \<circ> fst) x = [x]"
      using filter_fst_distinct[of xs "fst x" "snd x"] by simp
  qed
  then have "concat (map ((\<lambda>n. filter (\<lambda>nc. fst nc = n) xs) \<circ> fst) (filter P xs)) = filter P xs"
    by (simp only: concat_map_singleton list.map_ident)
  then show ?thesis by (simp only: map_map)
qed

subsection \<open>The cleaning in closed form\<close>

text \<open>
  The comprehension over the labels raises exactly when a label is duplicated;
  otherwise the cleaning returns the kept and filled columns, restricted to the rows
  without a remaining gap and to the numeric dtypes.
\<close>

lemma drop_cols_colnames:
  "drop_cols df t (colnames df) =
     (if distinct (colnames df)
      then Inr (filter (\<lambda>n. exceeds (isna_mean (hd (getitem df n))) t) (colnames df))
      else Inl AmbiguousTruthValue)"
  by (simp only: drop_cols_eq unique_labels_iff)

lemma drop_columns_kept:
  assumes "distinct (colnames df)"
  shows "columns (drop_columns df (filter (\<lambda>n. exceeds (isna_mean (hd (getitem df n))) t) (colnames df)))
         = filter (\<lambda>nc. \<not> exceeds (isna_mean (snd nc)) t) (columns df)"
  using assms filter_names_cols[of "columns df" "\<lambda>c. exceeds (isna_mean c) t"]
  by (simp add: drop_columns_def colnames_def getitem_def)

lemma clean_quarterly_data_eq:
  "clean_quarterly_data df t =
     (if distinct (colnames df)
      then Inr \<lparr>index = select_rows (kept_mask df t) (index df),
               columns = filter (\<lambda>nc. is_number (snd nc))
                 (map (\<lambda>nc. (fst nc, col_select (kept_mask df t) (snd nc))) (kept_filled df t))\<rparr>
      else Inl AmbiguousTruthValue)"
proof (cases "distinct (colnames df)")
  case False
  then show ?thesis by (simp add: clean_quarterly_data_def drop_cols_colnames)
next
  case True
  let ?ds = "filter (\<lambda>n. exceeds (isna_mean (hd (getitem df n))) t) (colnames df)"
  let ?f = "bfill (ffill (drop_columns df ?ds))"
  have cols: "columns ?f = kept_filled df t"
    using drop_columns_kept[OF True, of t]
    by (simp add: bfill_def ffill_def kept_filled_def comp_def)
  have idx: "index ?f = index df"
    by (simp add: bfill_def ffill_def drop_columns_def)
  have mask: "row_notna ?f = kept_mask df t"
    by (simp only: row_notna_def kept_mask_def cols idx)
  let ?g = "dropna_any ?f"
  have gcols: "columns ?g = map (\<lambda>nc. (fst nc, col_select (kept_mask df t) (snd nc))) (kept_filled df t)"
    and gidx: "index ?g = select_rows (kept_mask df t) (index df)"
    by (simp_all add: dropna_any_def Let_def mask cols idx)
  have "map fst (columns ?g) = map fst (filter (\<lambda>nc. \<not> exceeds (isna_mean (snd nc)) t) (columns df))"
    unfolding gcols kept_filled_def by (simp add: comp_def)
  moreover have "distinct (map fst (filter (\<lambda>nc. \<not> exceeds (isna_mean (snd nc)) t) (columns df)))"
    using True unfolding colnames_def by (rule distinct_map_filter)
  ultimately have "distinct (map fst (columns ?g))" by simp
  then have sel: "getitem_list ?g (numeric_cols ?g)
      = ?g\<lparr>columns := filter (\<lambda>nc. is_number (snd nc)) (columns ?g)\<rparr>"
    unfolding getitem_list_def numeric_cols_def
    by (simp only: getitem_list_distinct)
  have "clean_quarterly_data df t = Inr (getitem_list ?g (numeric_cols ?g))"
    using True by (simp add: clean_quarterly_data_def drop_cols_colnames Let_def)
  also have "getitem_list ?g (numeric_cols ?g)
      = \<lparr>index = select_rows (kept_mask df t) (index df),
         columns = filter (\<lambda>nc. is_number (snd nc))
           (map (\<lambda>nc. (fst nc, col_select (kept_mask df t) (snd nc))) (kept_filled df t))\<rparr>"
    unfolding sel by (simp add: gcols[symmetric] gidx[symmetric])
  finally show ?thesis using True by simp
qed

subsection \<open>Invariants of the cleaned panel\<close>

lemma length_kept_mask [simp]: "length (kept_mask df t) = length (index df)"
  by (simp add: kept_mask_def)

lemma kept_mask_nth:
  "i < length (index df) \<Longrightarrow>
   kept_mask df t ! i = list_all (\<lambda>nc. \<not> col_isna (snd nc) ! i) (kept_filled df t)"
  by (simp add: kept_mask_def)

lemma kept_mask_no_missing:
  assumes "nc \<in> set (kept_filled df t)"
  shows "True \<notin> set (col_isna (col_select (kept_mask df t) (snd nc)))"
proof
  assume "True \<in> set (col_isna (col_select (kept_mask df t) (snd nc)))"
  then have "True \<in> set (select_rows (kept_mask df t) (col_isna (snd nc)))"
    by (simp only: col_isna_select)
  then obtain i where i: "i < length (kept_mask df t)" "kept_mask df t ! i" "col_isna (snd nc) ! i"
    by (auto dest!: set_select_rows)
  then have "list_all (\<lambda>nc. \<not> col_isna (snd nc) ! i) (kept_filled df t)"
    by (simp add: kept_mask_nth)
  with assms i(3) show False by (auto simp: list_all_iff)
qed

lemma missing_count_zero_iff:
  "missing_count df = 0 \<longleftrightarrow> (\<forall>nc\<in>set (columns df). True \<notin> set (col_isna (snd nc)))"
  by (auto simp: missing_count_def filter_empty_conv)

lemma clean_result_cases:
  assumes "clean_quarterly_data df t = Inr r"
  shows "distinct (colnames df)"
    and "index r = select_rows (kept_mask df t) (index df)"
    and "columns r = filter (\<lambda>nc. is_number (snd nc))
           (map (\<lambda>nc. (fst nc, col_select (kept_mask df t) (snd nc))) (kept_filled df t))"
  using assms by (auto simp: clean_quarterly_data_eq split: if_splits)

lemma clean_no_missing:
  assumes "clean_quarterly_data df t = Inr r"
  shows "missing_count r = 0"
  unfolding missing_count_zero_iff clean_result_cases(3)[OF assms]
  using kept_mask_no_missing by auto

lemma clean_all_numeric:
  assumes "clean_quarterly_data df t = Inr r"
  shows "all_numeric r"
  by (simp add: all_numeric_def clean_result_cases(3)[OF assms] list_all_iff)

text \<open>
  The cleaned panel is well formed, none of its columns exceeds the threshold again,
  and a second cleaning changes nothing.
\<close>

lemma clean_preserves_wf:
  assumes wf: "wf_frame df" and cl: "clean_quarterly_data df t = Inr r"
  shows "wf_frame r"
proof -
  note r = clean_result_cases[OF cl]
  have len: "length (index r) = length (filter (\<lambda>b. b) (kept_mask df t))"
    by (simp add: r(2) length_select_rows)
  have "col_len (snd nc) = length (index r)" if "nc \<in> set (columns r)" for nc
  proof -
    from that obtain nc0 where nc0: "nc0 \<in> set (columns df)"
      and nc: "snd nc = col_select (kept_mask df t) (col_bfill (col_ffill (snd nc0)))"
      unfolding r(3) kept_filled_def by auto
    from wf nc0 have "col_len (snd nc0) = length (index df)"
      by (simp add: wf_frame_def list_all_iff)
    then show ?thesis by (simp add: nc len col_len_select)
  qed
  then show ?thesis by (simp add: wf_frame_def list_all_iff)
qed

lemma clean_columns_not_exceeding:
  assumes cl: "clean_quarterly_data df t = Inr r" and nc: "nc \<in> set (columns r)"
  shows "\<not> exceeds (isna_mean (snd nc)) t"
proof (cases "exceeds (Fin 0) t")
  case False
  from clean_no_missing[OF cl] nc have "True \<notin> set (col_isna (snd nc))"
    by (simp add: missing_count_zero_iff)
  with False show ?thesis
    by (simp add: isna_mean_def mask_mean_all_False)
next
  case True
  note r = clean_result_cases[OF cl]
  from nc obtain nc0 where nc0: "nc0 \<in> set (columns df)"
    and keep: "\<not> exceeds (isna_mean (snd nc0)) t"
    and sel: "snd nc = col_select (kept_mask df t) (col_bfill (col_ffill (snd nc0)))"
    unfolding r(3) kept_filled_def by auto
  have "col_isna (snd nc0) = []"
  proof (rule ccontr)
    assume "col_isna (snd nc0) \<noteq> []"
    then obtain f where "isna_mean (snd nc0) = Fin f" "0 \<le> f"
      using mask_mean_range[of "col_isna (snd nc0)"] by (auto simp: isna_mean_def)
    with True have "exceeds (isna_mean (snd nc0)) t" by (simp add: exceeds_mono)
    with keep show False by simp
  qed
  then have "col_len (snd nc0) = 0"
    by (metis length_col_isna list.size(3))
  then have "length (col_isna (col_bfill (col_ffill (snd nc0)))) = 0"
    by simp
  then have "col_isna (col_bfill (col_ffill (snd nc0))) = []"
    by (simp only: length_0_conv)
  then have "col_isna (snd nc) = []"
    by (simp add: sel col_isna_select)
  then show ?thesis by (simp add: isna_mean_def mask_mean_def)
qed




text \<open>The cleaning of the concrete panels.\<close>

lemma panel_ex_cleaned: "clean_quarterly_data panel_ex (fl (3 / 10)) = Inr panel_ex_clean"
  by code_simp

lemma panel_gap_cleaned: "clean_quarterly_data panel_gap (Fin 1) = Inr panel_gap_clean"
  by code_simp

subsection \<open>The claims about cleaning\<close>

text \<open>
  C1. Whenever \<open>clean_quarterly_data\<close> returns a panel, that panel has no missing
  value, all of its columns are numeric, and its row index is a subsequence of the
  input's row index (the same labels, in the original order, some possibly left out).
\<close>

theorem clean_output_invariant:
  assumes "clean_quarterly_data df t = Inr r"
  shows "missing_count r = 0 \<and> all_numeric r \<and> subseq (index r) (index df)"
proof -
  have "index r = select_rows (kept_mask df t) (index df)"
    by (rule clean_result_cases(2)[OF assms])
  then have "subseq (index r) (index df)"
    by (simp add: subseq_select_rows)
  with clean_no_missing[OF assms] clean_all_numeric[OF assms] show ?thesis by simp
qed

theorem clean_output_invariant_witness:
  "clean_quarterly_data panel_ex (fl (3 / 10)) = Inr panel_ex_clean \<and>
   missing_count panel_ex_clean = 0 \<and> all_numeric panel_ex_clean \<and>
   subseq (index panel_ex_clean) (index panel_ex)"
  using clean_output_invariant[OF panel_ex_cleaned] panel_ex_cleaned by simp

text \<open>
  At the threshold literal 0.3333333333333333, which is the float of 1/3, a column with
  one of three entries missing is not above the threshold.
\<close>

lemma third_not_exceeding:
  "isna_mean (FloatCol [None, Some 1, Some 1]) = fl (3333333333333333 / 10 ^ 16) \<and>
   \<not> exceeds (isna_mean (FloatCol [None, Some 1, Some 1])) (fl (3333333333333333 / 10 ^ 16))"
  by code_simp



text \<open>
  C7. Cleaning is idempotent: on a well-formed panel, cleaning the cleaned panel again
  with the same threshold returns it unchanged. (Where the first call raises there is
  no panel to clean again.)
\<close>

theorem clean_idempotent:
  assumes wf: "wf_frame df" and cl: "clean_quarterly_data df t = Inr r"
  shows "clean_quarterly_data r t = Inr r"
proof -
  note r = clean_result_cases[OF cl]
  have wfr: "wf_frame r" by (rule clean_preserves_wf[OF wf cl])
  have nomiss: "True \<notin> set (col_isna (snd nc))" if "nc \<in> set (columns r)" for nc
    using clean_no_missing[OF cl] that by (simp add: missing_count_zero_iff)
  have num: "is_number (snd nc)" if "nc \<in> set (columns r)" for nc
    using clean_all_numeric[OF cl] that by (simp add: all_numeric_def list_all_iff)
  have dist: "distinct (colnames r)"
  proof -
    have "colnames r = map fst (filter (\<lambda>nc. is_number (col_select (kept_mask df t) (col_bfill (col_ffill (snd nc)))))
        (filter (\<lambda>nc. \<not> exceeds (isna_mean (snd nc)) t) (columns df)))"
      unfolding colnames_def r(3) kept_filled_def by (simp add: filter_map comp_def)
    moreover have "distinct (map fst (columns df))" using r(1) by (simp add: colnames_def)
    ultimately show ?thesis by (simp add: distinct_map_filter)
  qed
  have "filter (\<lambda>nc. \<not> exceeds (isna_mean (snd nc)) t) (columns r) = columns r"
    using clean_columns_not_exceeding[OF cl] by (simp add: filter_id_conv)
  moreover have "map (\<lambda>nc. (fst nc, col_bfill (col_ffill (snd nc)))) (columns r) = columns r"
    using nomiss by (simp add: map_idI col_ffill_id col_bfill_id)
  ultimately have kf: "kept_filled r t = columns r" by (simp add: kept_filled_def)
  have all_true: "\<forall>b\<in>set (kept_mask r t). b"
  proof
    fix b assume "b \<in> set (kept_mask r t)"
    then obtain i where i: "i < length (index r)"
      and b: "b = list_all (\<lambda>nc. \<not> col_isna (snd nc) ! i) (columns r)"
      by (auto simp: kept_mask_def kf)
    have "\<not> col_isna (snd nc) ! i" if "nc \<in> set (columns r)" for nc
    proof -
      from wfr that have "i < length (col_isna (snd nc))"
        using i by (simp add: wf_frame_def list_all_iff)
      then have "col_isna (snd nc) ! i \<in> set (col_isna (snd nc))" by (rule nth_mem)
      with nomiss[OF that] show ?thesis by auto
    qed
    with b show b by (simp add: list_all_iff)
  qed
  have idx: "select_rows (kept_mask r t) (index r) = index r"
    using all_true by (simp add: select_rows_all)
  have "map (\<lambda>nc. (fst nc, col_select (kept_mask r t) (snd nc))) (columns r) = columns r"
  proof (rule map_idI)
    fix nc assume "nc \<in> set (columns r)"
    with wfr have "length (kept_mask r t) = col_len (snd nc)"
      by (simp add: wf_frame_def list_all_iff)
    with all_true show "(fst nc, col_select (kept_mask r t) (snd nc)) = nc"
      by (simp add: col_select_all)
  qed
  moreover have "filter (\<lambda>nc. is_number (snd nc)) (columns r) = columns r"
    using num by (simp add: filter_id_conv)
  ultimately show ?thesis
    using dist by (simp add: clean_quarterly_data_eq kf idx)
qed

theorem clean_idempotent_witness:
  "wf_frame panel_gap \<and> clean_quarterly_data panel_gap (Fin 1) = Inr panel_gap_clean \<and>
   clean_quarterly_data panel_gap_clean (Fin 1) = Inr panel_gap_clean"
proof -
  have w: "wf_frame panel_gap" by code_simp
  from clean_idempotent[OF w panel_gap_cleaned] w panel_gap_cleaned show ?thesis by simp
qed

section \<open>Properties of the store-level cleaning and of the preparation\<close>

text \<open>
  The store-level cleaning returns the value of the value-level one, touches no object
  allocated before the call, and prints one line.
\<close>

lemma clean_st_result:
  assumes "df < next_ref s"
  shows "clean_returned df t s = clean_quarterly_data (heap s df) t"
  using assms
  by (auto simp: clean_returned_def clean_quarterly_data_st_def clean_quarterly_data_def alloc_def
      update_inplace_def print_line_def Let_def split: sum.splits prod.splits)

lemma clean_st_frame:
  assumes "df < next_ref s" and "r < next_ref s"
  shows "heap (snd (clean_quarterly_data_st df t s)) r = heap s r"
  using assms
  by (auto simp: clean_quarterly_data_st_def alloc_def update_inplace_def
      print_line_def Let_def split: sum.splits prod.splits)

lemma clean_st_console:
  "console (snd (clean_quarterly_data_st df t s)) =
     console s @ (case clean_returned df t s of Inl e \<Rightarrow> [] | Inr f \<Rightarrow> [CleanedShape (shape f)])"
  by (auto simp: clean_returned_def clean_quarterly_data_st_def alloc_def update_inplace_def
      print_line_def Let_def split: sum.splits prod.splits)

text \<open>
  C9. Run on a store in which the input is an allocated object, the call leaves the
  input and every other object of that store as it was; the frame it returns is the
  value of \<open>clean_quarterly_data\<close> at the input frame and the threshold, and nothing
  else, so two calls on equal frames return equal frames whatever the rest of their
  stores; the only other effect is one console line with the shape of the result. The
  function has no parameter through which it could reach a provider or a file.
\<close>

theorem clean_deterministic_pure:
  assumes "df < next_ref s"
  shows "(\<forall>r. r < next_ref s \<longrightarrow> heap (snd (clean_quarterly_data_st df t s)) r = heap s r) \<and>
         heap (snd (clean_quarterly_data_st df t s)) df = heap s df \<and>
         clean_returned df t s = clean_quarterly_data (heap s df) t \<and>
         (\<forall>s2 df2. df2 < next_ref s2 \<and> heap s2 df2 = heap s df \<longrightarrow>
            clean_returned df2 t s2 = clean_returned df t s) \<and>
         console (snd (clean_quarterly_data_st df t s)) =
           console s @ (case clean_returned df t s of Inl e \<Rightarrow> [] | Inr f \<Rightarrow> [CleanedShape (shape f)])"
proof -
  have unchanged: "heap (snd (clean_quarterly_data_st df t s)) r = heap s r" if "r < next_ref s" for r
    using assms that by (rule clean_st_frame)
  have returned: "clean_returned df t s = clean_quarterly_data (heap s df) t"
    using assms by (rule clean_st_result)
  have "clean_returned df2 t s2 = clean_returned df t s"
    if "df2 < next_ref s2" "heap s2 df2 = heap s df" for s2 df2
    using that returned by (simp add: clean_st_result)
  with unchanged unchanged[OF assms] returned show ?thesis
    by (simp add: clean_st_console)
qed

theorem clean_deterministic_pure_witness:
  "(0::nat) < next_ref store_ex \<and> heap store_ex 0 = panel_ex \<and>
   heap (snd (clean_quarterly_data_st 0 (fl (3 / 10)) store_ex)) 0 = panel_ex \<and>
   clean_returned 0 (fl (3 / 10)) store_ex = Inr panel_ex_clean \<and>
   console (snd (clean_quarterly_data_st 0 (fl (3 / 10)) store_ex)) = [CleanedShape (4, 2)]"
proof -
  have a: "(0::nat) < next_ref store_ex" and h: "heap store_ex 0 = panel_ex"
    and c: "console store_ex = []"
    by (simp_all add: store_ex_def)
  have sh: "shape panel_ex_clean = (4, 2)" by (simp add: shape_def panel_ex_clean_def)
  from clean_deterministic_pure[OF a, of "fl (3 / 10)"] a h c sh panel_ex_cleaned
  show ?thesis by simp
qed

subsection \<open>The split and the result of the preparation\<close>

text \<open>
  For a test fraction between 0 and 1 and fewer than \<open>2^53\<close> rows, both float
  operations stay finite and the split index lies between 0 and the number of rows.
\<close>

lemma split_idx_unit:
  assumes "0 \<le> q" and "q \<le> 1" and "n < 2 ^ 53"
  shows "\<exists>x y. fl (1 - q) = Fin x \<and> fl (x * of_nat n) = Fin y \<and>
           0 \<le> y \<and> y \<le> of_nat n \<and> split_idx (Fin q) n = Inr \<lfloor>y\<rfloor>"
proof -
  have "0 \<le> 1 - q" "1 - q \<le> of_int 1" using assms by simp_all
  then have "\<exists>x. fl (1 - q) = Fin x \<and> 0 \<le> x \<and> x \<le> of_int 1"
    by (intro fl_bounded) simp_all
  then obtain x where x: "fl (1 - q) = Fin x" "0 \<le> x" "x \<le> 1" by auto
  have n: "float_of_nat n = Fin (of_nat n)"
    unfolding float_of_nat_def using assms(3) by (rule fl_of_nat)
  have "x * of_nat n \<le> 1 * of_nat n"
    using x(3) by (intro mult_right_mono) simp_all
  then have "x * of_nat n \<le> of_int (int n)" by simp
  moreover have "0 \<le> x * of_nat n" using x(2) by simp
  moreover have "int n < 2 ^ 53" using assms(3)
    by (metis of_nat_less_iff of_nat_numeral of_nat_power)
  ultimately have "\<exists>y. fl (x * of_nat n) = Fin y \<and> 0 \<le> y \<and> y \<le> of_int (int n)"
    by (intro fl_bounded)
  then obtain y where y: "fl (x * of_nat n) = Fin y" "0 \<le> y" "y \<le> of_nat n" by auto
  have "split_idx (Fin q) n = Inr \<lfloor>y\<rfloor>"
    using x(1) n y(1,2) by (simp add: split_idx_def)
  with x(1) y show ?thesis by blast
qed

lemma slices_append: "slice_to xs k @ slice_from xs k = xs"
  by (simp add: slice_to_def slice_from_def)

lemma clip_index_in_range: "0 \<le> k \<Longrightarrow> k \<le> int n \<Longrightarrow> clip_index n k = nat k"
  by (simp add: clip_index_def)

text \<open>The outcome of the call once reading, cleaning and scaling have succeeded.\<close>

lemma prepare_data_outcome:
  assumes "read_csv ext p = Some df" and "clean_quarterly_data df (fl (3 / 10)) = Inr c"
    and "fit_transform ext (frame_values c) = Some (sc, scaled)"
  shows "prepare_data ext p ts bs =
     (case split_idx ts (length scaled) of
        Inl e \<Rightarrow> Inl e
      | Inr k \<Rightarrow>
          if loader_accepts ext (EconomicDataset (slice_to scaled k)) bs True \<and>
             loader_accepts ext (EconomicDataset (slice_from scaled k)) bs False
          then Inr (loaders_over scaled k bs sc (colnames df))
          else Inl DataLoaderFailed)"
  using assms by (simp add: prepare_data_def loaders_over_def Let_def split: sum.splits)

lemma split_idx_errors: "split_idx ts n = Inl e \<Longrightarrow> e = IntOfNaN \<or> e = IntOfInfinity"
  by (cases "fmul (fsub (Fin 1) ts) (float_of_nat n)") (auto simp: split_idx_def)

lemma split_idx_zero:
  assumes "n < 2 ^ 53"
  shows "split_idx (Fin 0) n = Inr (int n)"
proof -
  have "fl (1 - 0) = Fin 1" using fl_of_nat[of 1] by simp
  moreover have "float_of_nat n = Fin (of_nat n)"
    unfolding float_of_nat_def using assms by (rule fl_of_nat)
  moreover have "fl (1 * of_nat n) = Fin (of_nat n)"
    using fl_of_nat[OF assms] by simp
  ultimately show ?thesis by (simp add: split_idx_def)
qed

lemma slice_from_length: "slice_from xs (int (length xs)) = []"
  by (simp add: slice_from_def clip_index_def)

lemma clean_never_spec_errors:
  "clean_quarterly_data df t \<noteq> Inl EmptyPanelError"
  by (simp add: clean_quarterly_data_eq)

lemma prepare_data_never_spec_errors:
  "prepare_data ext p ts bs \<noteq> Inl EmptyPanelError \<and> prepare_data ext p ts bs \<noteq> Inl DegenerateSplitError"
  by (auto simp: prepare_data_def Let_def clean_quarterly_data_eq
      split: option.splits sum.splits if_splits dest: split_idx_errors)

text \<open>The preparation of the concrete files.\<close>

lemma hundred_cleaned: "clean_quarterly_data panel_hundred (fl (3 / 10)) = Inr panel_hundred"
  by code_simp

lemma hundred_prepared:
  "prepare_data ext_ex ''hundred.csv'' (Fin (3602879701896397 / 18014398509481984)) 32 =
     Inr (loaders_over scaled_hundred 80 32 ([2], [1]) [''Real_GDP''])"
  by code_simp

lemma two_cleaned: "clean_quarterly_data panel_two (fl (3 / 10)) = Inr panel_two"
  by code_simp

lemma text_cleaned:
  "clean_quarterly_data panel_text (fl (3 / 10)) = Inr \<lparr>index = [0, 1], columns = []\<rparr>"
  by code_simp

subsection \<open>The claims about the preparation\<close>

text \<open>
  C2, as stated: the split index is \<open>floor ((1 - testFraction) * n)\<close>. With the test
  fraction 0.8 and 100 rows the call splits at 19, and the train loader holds 19 rows,
  where \<open>floor ((1 - 0.8) * 100)\<close> is 20: the float \<open>1 - 0.8\<close> lies below 0.2. Reading the
  test fraction as the exact value of its float does not save the formula either: that
  gives 79 at the test fraction 0.2, where the call splits at 80, as the claim's own
  example has it.
\<close>

theorem split_formula_counterexample:
  "fl (4 / 5) = Fin (3602879701896397 / 4503599627370496) \<and>
   split_idx (Fin (3602879701896397 / 4503599627370496)) 100 = Inr 19 \<and>
   \<lfloor>(1 - 4 / 5) * (100 :: rat)\<rfloor> = 20 \<and>
   prepare_data ext_ex ''hundred.csv'' (Fin (3602879701896397 / 4503599627370496)) 32 =
     Inr (loaders_over scaled_hundred 19 32 ([2], [1]) [''Real_GDP'']) \<and>
   length (slice_to scaled_hundred 19) = 19 \<and>
   fl (1 / 5) = Fin (3602879701896397 / 18014398509481984) \<and>
   split_idx (Fin (3602879701896397 / 18014398509481984)) 100 = Inr 80 \<and>
   \<lfloor>(1 - 3602879701896397 / 18014398509481984) * (100 :: rat)\<rfloor> = 79"
  by code_simp

text \<open>
  C2, amended. For every cleaned panel with \<open>n\<close> rows (fewer than \<open>2^53\<close>) and every test
  fraction strictly between 0 and 1, when the call returns and the scaler has kept the
  row count: the split index is the integer part of the float product
  \<^verbatim>\<open>(1 - test_size) * n\<close>, that is of \<open>fl (x * n)\<close> where \<open>x\<close> is the float \<open>fl (1 - test_size)\<close>,
  each operation rounded to the nearest float; it lies in \<open>[0, n]\<close>; the train partition
  is the rows at the positions below it and the test partition the rows from it on: two
  disjoint ranges of positions, every train position before every test position,
  together all rows. For 100 rows and the test fraction 0.2 the split index is 80.
\<close>

theorem prepare_data_split:
  assumes rd: "read_csv ext p = Some df" and cl: "clean_quarterly_data df (fl (3 / 10)) = Inr c"
    and ft: "fit_transform ext (frame_values c) = Some (sc, scaled)"
    and len: "length scaled = length (index c)"
    and ts: "0 < q" "q < 1"
    and small: "length (index c) < 2 ^ 53"
    and ret: "prepare_data ext p (Fin q) bs = Inr r"
  shows "(\<exists>x y. fl (1 - q) = Fin x \<and> fl (x * of_nat (length (index c))) = Fin y \<and>
           (let n = length (index c);
                k = nat \<lfloor>y\<rfloor>;
                train = data (dataset (train_loader r));
                test = data (dataset (test_loader r))
            in split_idx (Fin q) n = Inr (int k) \<and> k \<le> n \<and>
               train = take k scaled \<and> test = drop k scaled \<and> train @ test = scaled \<and>
               length train = k \<and> length test = n - k \<and>
               (\<forall>i. i < length train \<longrightarrow> train ! i = scaled ! i) \<and>
               (\<forall>j. j < length test \<longrightarrow> test ! j = scaled ! (k + j)))) \<and>
         fl (1 / 5) = Fin (3602879701896397 / 18014398509481984) \<and>
         split_idx (Fin (3602879701896397 / 18014398509481984)) 100 = Inr 80"
proof -
  let ?n = "length (index c)"
  from split_idx_unit[OF less_imp_le[OF ts(1)] less_imp_le[OF ts(2)] small] obtain x y
    where x: "fl (1 - q) = Fin x" and y: "fl (x * of_nat ?n) = Fin y"
      and y0: "0 \<le> y" and yn: "y \<le> of_nat ?n" and s: "split_idx (Fin q) ?n = Inr \<lfloor>y\<rfloor>"
    by blast
  let ?k = "nat \<lfloor>y\<rfloor>"
  have f0: "0 \<le> \<lfloor>y\<rfloor>" using y0 by simp
  have "y \<le> of_int (int ?n)" using yn by simp
  then have fn: "\<lfloor>y\<rfloor> \<le> int ?n" using floor_mono[of y "of_int (int ?n)"] by simp
  have k: "split_idx (Fin q) ?n = Inr (int ?k)" using s f0 by simp
  have kn: "?k \<le> ?n" using fn f0 by simp
  have clip: "clip_index (length scaled) \<lfloor>y\<rfloor> = ?k"
    unfolding len using f0 fn by (rule clip_index_in_range)
  from prepare_data_outcome[OF rd cl ft, of "Fin q" bs] ret s
  have r: "r = loaders_over scaled \<lfloor>y\<rfloor> bs sc (colnames df)"
    by (simp add: len split: if_splits)
  have tr: "data (dataset (train_loader r)) = take ?k scaled"
    and te: "data (dataset (test_loader r)) = drop ?k scaled"
    by (simp_all add: r loaders_over_def slice_to_def slice_from_def clip)
  have main: "let n = length (index c);
                k = nat \<lfloor>y\<rfloor>;
                train = data (dataset (train_loader r));
                test = data (dataset (test_loader r))
            in split_idx (Fin q) n = Inr (int k) \<and> k \<le> n \<and>
               train = take k scaled \<and> test = drop k scaled \<and> train @ test = scaled \<and>
               length train = k \<and> length test = n - k \<and>
               (\<forall>i. i < length train \<longrightarrow> train ! i = scaled ! i) \<and>
               (\<forall>j. j < length test \<longrightarrow> test ! j = scaled ! (k + j))"
    using k kn tr te len by (simp add: Let_def min_absorb2)
  have "fl (1 / 5) = Fin (3602879701896397 / 18014398509481984)"
    by (rule fl_known_values)
  moreover have "split_idx (Fin (3602879701896397 / 18014398509481984)) 100 = Inr 80"
    by code_simp
  ultimately show ?thesis using x y main by blast
qed

theorem prepare_data_split_witness:
  "read_csv ext_ex ''hundred.csv'' = Some panel_hundred \<and>
   clean_quarterly_data panel_hundred (fl (3 / 10)) = Inr panel_hundred \<and>
   fit_transform ext_ex (frame_values panel_hundred) = Some (([2], [1]), scaled_hundred) \<and>
   length scaled_hundred = length (index panel_hundred) \<and>
   length (index panel_hundred) = 100 \<and>
   fl (1 / 5) = Fin (3602879701896397 / 18014398509481984) \<and>
   prepare_data ext_ex ''hundred.csv'' (Fin (3602879701896397 / 18014398509481984)) 32 =
     Inr (loaders_over scaled_hundred 80 32 ([2], [1]) [''Real_GDP'']) \<and>
   split_idx (Fin (3602879701896397 / 18014398509481984)) (length (index panel_hundred)) = Inr 80 \<and>
   data (dataset (train_loader
     (loaders_over scaled_hundred 80 32 ([2 :: rat], [1 :: rat]) [''Real_GDP'']))) =
     take 80 scaled_hundred \<and>
   data (dataset (test_loader
     (loaders_over scaled_hundred 80 32 ([2 :: rat], [1 :: rat]) [''Real_GDP'']))) =
     drop 80 scaled_hundred"
proof -
  let ?r = "loaders_over scaled_hundred 80 32 ([2 :: rat], [1 :: rat]) [''Real_GDP'']"
  have rd: "read_csv ext_ex ''hundred.csv'' = Some panel_hundred"
    by (simp add: ext_ex_def)
  have ft: "fit_transform ext_ex (frame_values panel_hundred) = Some (([2], [1]), scaled_hundred)"
    by code_simp
  have n: "length (index panel_hundred) = 100"
    by (simp add: panel_hundred_def)
  have "length scaled_hundred = 100"
    by code_simp
  with n have len: "length scaled_hundred = length (index panel_hundred)"
    by simp
  have ts: "(0::rat) < 3602879701896397 / 18014398509481984"
    "(3602879701896397::rat) / 18014398509481984 < 1" by simp_all
  have small: "length (index panel_hundred) < 2 ^ 53" unfolding n by simp
  have f: "fl (1 / 5) = Fin (3602879701896397 / 18014398509481984)"
    by (rule fl_known_values)
  have k: "split_idx (Fin (3602879701896397 / 18014398509481984)) (length (index panel_hundred)) = Inr 80"
    unfolding n by code_simp
  from prepare_data_split[OF rd hundred_cleaned ft len ts small hundred_prepared]
  obtain y :: rat where
    s: "split_idx (Fin (3602879701896397 / 18014398509481984)) (length (index panel_hundred)) =
          Inr (int (nat \<lfloor>y\<rfloor>))"
    and tr: "data (dataset (train_loader ?r)) = take (nat \<lfloor>y\<rfloor>) scaled_hundred"
    and te: "data (dataset (test_loader ?r)) = drop (nat \<lfloor>y\<rfloor>) scaled_hundred"
    unfolding Let_def by blast
  from s k have "int (nat \<lfloor>y\<rfloor>) = 80" by simp
  then have "nat \<lfloor>y\<rfloor> = 80" by linarith
  with tr te have "data (dataset (train_loader ?r)) = take 80 scaled_hundred"
    "data (dataset (test_loader ?r)) = drop 80 scaled_hundred" by simp_all
  with rd hundred_cleaned ft len n f hundred_prepared k show ?thesis by (intro conjI)
qed

text \<open>
  C5, as stated: a test fraction outside (0, 1), or a split that leaves a partition
  empty, makes the call fail with a DegenerateSplitError. With the test fraction 0.0 on
  a panel of two rows the split index is 2, and the call returns: the train loader
  holds both rows and the test loader none.
\<close>

theorem prepare_data_degenerate_counterexample:
  "split_idx (Fin 0) 2 = Inr 2 \<and>
   prepare_data ext_ex ''two.csv'' (Fin 0) 32 =
     Inr \<lparr>train_loader =
            \<lparr>dataset = EconomicDataset [[CFloat (Some (- 1))], [CFloat (Some 1)]],
               batch_size = 32, shuffle = True\<rparr>,
          test_loader = \<lparr>dataset = EconomicDataset [], batch_size = 32, shuffle = False\<rparr>,
          scaler = ([2], [1]), feature_names = [''Real_GDP'']\<rparr>"
  by code_simp

text \<open>
  C5, amended. The call checks neither the test fraction nor the split index and never
  fails with a DegenerateSplitError. Once reading, cleaning and scaling have succeeded,
  its outcome is, for every test fraction: the error of \<^verbatim>\<open>int\<close> when the float product
  \<^verbatim>\<open>(1 - test_size) * n\<close> is NaN or infinite; otherwise, with the partitions
  \<^verbatim>\<open>scaled_data[:split_idx]\<close> and \<^verbatim>\<open>scaled_data[split_idx:]\<close>, which together are all rows,
  the two loaders over them when the loader constructor accepts both, and the
  constructor's error when it rejects one. At the test fraction 0.0 (and fewer than
  \<open>2^53\<close> rows) the split index is the number of rows and the test partition is empty;
  a NaN test fraction fails in \<^verbatim>\<open>int\<close>.
\<close>

theorem prepare_data_unchecked_split:
  assumes "read_csv ext p = Some df" and "clean_quarterly_data df (fl (3 / 10)) = Inr c"
    and "fit_transform ext (frame_values c) = Some (sc, scaled)"
  shows "prepare_data ext p ts bs =
           (case split_idx ts (length scaled) of
              Inl e \<Rightarrow> Inl e
            | Inr k \<Rightarrow>
                if loader_accepts ext (EconomicDataset (slice_to scaled k)) bs True \<and>
                   loader_accepts ext (EconomicDataset (slice_from scaled k)) bs False
                then Inr (loaders_over scaled k bs sc (colnames df))
                else Inl DataLoaderFailed) \<and>
         (\<forall>k. data (dataset (train_loader (loaders_over scaled k bs sc (colnames df)))) = slice_to scaled k \<and>
              data (dataset (test_loader (loaders_over scaled k bs sc (colnames df)))) = slice_from scaled k \<and>
              slice_to scaled k @ slice_from scaled k = scaled) \<and>
         (\<forall>e. split_idx ts (length scaled) = Inl e \<longrightarrow> e = IntOfNaN \<or> e = IntOfInfinity) \<and>
         split_idx NaN (length scaled) = Inl IntOfNaN \<and>
         (length scaled < 2 ^ 53 \<longrightarrow> split_idx (Fin 0) (length scaled) = Inr (int (length scaled))) \<and>
         slice_from scaled (int (length scaled)) = [] \<and>
         prepare_data ext p ts bs \<noteq> Inl DegenerateSplitError"
proof -
  have "split_idx NaN (length scaled) = Inl IntOfNaN"
    by (cases "float_of_nat (length scaled)") (simp_all add: split_idx_def)
  moreover have "length scaled < 2 ^ 53 \<longrightarrow> split_idx (Fin 0) (length scaled) = Inr (int (length scaled))"
    using split_idx_zero by blast
  moreover have "slice_from scaled (int (length scaled)) = []"
    by (rule slice_from_length)
  moreover have "\<forall>e. split_idx ts (length scaled) = Inl e \<longrightarrow> e = IntOfNaN \<or> e = IntOfInfinity"
    using split_idx_errors by blast
  moreover have "\<forall>k. data (dataset (train_loader (loaders_over scaled k bs sc (colnames df)))) = slice_to scaled k \<and>
              data (dataset (test_loader (loaders_over scaled k bs sc (colnames df)))) = slice_from scaled k \<and>
              slice_to scaled k @ slice_from scaled k = scaled"
    by (simp add: loaders_over_def slices_append)
  ultimately show ?thesis
    using prepare_data_outcome[OF assms, of ts bs] prepare_data_never_spec_errors[of ext p ts bs]
    by blast
qed

theorem prepare_data_unchecked_split_witness:
  "read_csv ext_ex ''two.csv'' = Some panel_two \<and>
   clean_quarterly_data panel_two (fl (3 / 10)) = Inr panel_two \<and>
   fit_transform ext_ex (frame_values panel_two) =
     Some (([2], [1]), [[CFloat (Some (- 1))], [CFloat (Some 1)]]) \<and>
   prepare_data ext_ex ''two.csv'' (Fin 0) 32 =
     Inr (loaders_over [[CFloat (Some (- 1))], [CFloat (Some 1)]] 2 32 ([2], [1]) [''Real_GDP'']) \<and>
   data (dataset (train_loader
     (loaders_over [[CFloat (Some (- 1))], [CFloat (Some 1)]] 2 32 ([2 :: rat], [1 :: rat]) [''Real_GDP'']))) =
     [[CFloat (Some (- 1))], [CFloat (Some 1)]] \<and>
   data (dataset (test_loader
     (loaders_over [[CFloat (Some (- 1))], [CFloat (Some 1)]] 2 32 ([2 :: rat], [1 :: rat]) [''Real_GDP'']))) = [] \<and>
   prepare_data ext_ex ''two.csv'' NaN 32 = Inl IntOfNaN \<and>
   prepare_data ext_ex ''two.csv'' PInf 32 = Inl IntOfInfinity \<and>
   prepare_data ext_ex ''two.csv'' (Fin 1) 32 = Inl DataLoaderFailed"
proof -
  have rd: "read_csv ext_ex ''two.csv'' = Some panel_two"
    by (simp add: ext_ex_def)
  have ft: "fit_transform ext_ex (frame_values panel_two) =
      Some (([2], [1]), [[CFloat (Some (- 1))], [CFloat (Some 1)]])"
    by code_simp
  have k0: "split_idx (Fin 0) (Suc (Suc 0)) = Inr 2"
    and k1: "split_idx (Fin 1) (Suc (Suc 0)) = Inr 0"
    and kn: "split_idx NaN (Suc (Suc 0)) = Inl IntOfNaN"
    and ki: "split_idx PInf (Suc (Suc 0)) = Inl IntOfInfinity"
    by code_simp+
  have acc: "loader_accepts ext_ex d 32 sh \<longleftrightarrow> data d \<noteq> [] \<or> \<not> sh" for d sh
    by (simp add: ext_ex_def)
  have sl: "slice_to [[CFloat (Some (- 1))], [CFloat (Some 1)]] 2 = [[CFloat (Some (- 1))], [CFloat (Some 1)]]"
    "slice_from [[CFloat (Some (- 1))], [CFloat (Some 1)]] 2 = []"
    "slice_to [[CFloat (Some (- 1))], [CFloat (Some 1)]] 0 = []"
    by (simp_all add: slice_to_def slice_from_def clip_index_def)
  have r0: "prepare_data ext_ex ''two.csv'' (Fin 0) 32 =
     Inr (loaders_over [[CFloat (Some (- 1))], [CFloat (Some 1)]] 2 32 ([2], [1]) [''Real_GDP''])"
    using prepare_data_unchecked_split[where ts = "Fin 0" and bs = 32, OF rd two_cleaned ft, THEN conjunct1] by (simp add: k0 acc sl colnames_def panel_two_def)
  have r1: "prepare_data ext_ex ''two.csv'' (Fin 1) 32 = Inl DataLoaderFailed"
    using prepare_data_unchecked_split[where ts = "Fin 1" and bs = 32, OF rd two_cleaned ft, THEN conjunct1] by (simp add: k1 acc sl)
  have rn: "prepare_data ext_ex ''two.csv'' NaN 32 = Inl IntOfNaN"
    using prepare_data_unchecked_split[where ts = NaN and bs = 32, OF rd two_cleaned ft, THEN conjunct1] by (simp add: kn)
  have ri: "prepare_data ext_ex ''two.csv'' PInf 32 = Inl IntOfInfinity"
    using prepare_data_unchecked_split[where ts = PInf and bs = 32, OF rd two_cleaned ft, THEN conjunct1] by (simp add: ki)
  have tr: "data (dataset (train_loader
     (loaders_over [[CFloat (Some (- 1))], [CFloat (Some 1)]] 2 32 ([2 :: rat], [1 :: rat]) [''Real_GDP'']))) =
     [[CFloat (Some (- 1))], [CFloat (Some 1)]]"
    and te: "data (dataset (test_loader
     (loaders_over [[CFloat (Some (- 1))], [CFloat (Some 1)]] 2 32 ([2 :: rat], [1 :: rat]) [''Real_GDP'']))) = []"
    by (simp_all add: loaders_over_def sl)
  from rd two_cleaned ft r0 tr te rn ri r1 show ?thesis by (intro conjI)
qed

text \<open>
  C8, as stated: when cleaning removes all rows or all columns, the preparation raises
  an EmptyPanelError instead of returning an empty table. Cleaning the file with a text
  column only removes all columns and returns the table without columns; cleaning
  \<open>panel_gap\<close> at the threshold 1 removes all rows and returns the table without rows;
  and the preparation of the text file fails in the scaler, with the scaler's error.
\<close>

theorem empty_panel_counterexample:
  "clean_quarterly_data panel_text (fl (3 / 10)) = Inr \<lparr>index = [0, 1], columns = []\<rparr> \<and>
   clean_quarterly_data panel_gap (Fin 1) = Inr panel_gap_clean \<and> index panel_gap_clean = [] \<and>
   read_csv ext_ex ''text.csv'' = Some panel_text \<and>
   prepare_data ext_ex ''text.csv'' (Fin (3602879701896397 / 18014398509481984)) 32 =
     Inl FitTransformFailed"
  by code_simp

text \<open>
  C8, amended. No input makes the cleaning or the preparation fail with an
  EmptyPanelError. When cleaning removes all rows or all columns it returns the empty
  table, and the preparation hands that table's array to the scaler: it fails with the
  scaler's error when the scaler rejects the array, and it returns when the scaler
  accepts the array, the split index can be computed and the loader constructor
  accepts both partitions. The split index can be computed for every test fraction
  from 0 to 1 and every array of fewer than \<open>2^53\<close> rows (\<^verbatim>\<open>int\<close> raises on NaN and on
  an infinity only).
\<close>

theorem prepare_data_empty_panel:
  assumes "read_csv ext p = Some df" and "clean_quarterly_data df (fl (3 / 10)) = Inr c"
    and "index c = [] \<or> columns c = []"
  shows "clean_quarterly_data df (fl (3 / 10)) \<noteq> Inl EmptyPanelError \<and>
         prepare_data ext p ts bs \<noteq> Inl EmptyPanelError \<and>
         (fit_transform ext (frame_values c) = None \<longrightarrow>
            prepare_data ext p ts bs = Inl FitTransformFailed) \<and>
         (\<forall>sc m k. fit_transform ext (frame_values c) = Some (sc, m) \<and>
            split_idx ts (length m) = Inr k \<and>
            loader_accepts ext (EconomicDataset (slice_to m k)) bs True \<and>
            loader_accepts ext (EconomicDataset (slice_from m k)) bs False \<longrightarrow>
            (\<exists>r. prepare_data ext p ts bs = Inr r)) \<and>
         (\<forall>q n. 0 \<le> q \<and> q \<le> 1 \<and> n < 2 ^ 53 \<longrightarrow> (\<exists>k. split_idx (Fin q) n = Inr k))"
proof -
  have "\<exists>k. split_idx (Fin q) n = Inr k" if "0 \<le> q" "q \<le> 1" "n < 2 ^ 53" for q n
    using split_idx_unit[OF that] by blast
  moreover have "prepare_data ext p ts bs = Inl FitTransformFailed"
    if "fit_transform ext (frame_values c) = None"
    using assms(1,2) that by (simp add: prepare_data_def)
  moreover have "\<exists>r. prepare_data ext p ts bs = Inr r"
    if "fit_transform ext (frame_values c) = Some (sc, m)"
      and "split_idx ts (length m) = Inr k"
      and "loader_accepts ext (EconomicDataset (slice_to m k)) bs True"
      and "loader_accepts ext (EconomicDataset (slice_from m k)) bs False"
    for sc m k
    using prepare_data_outcome[OF assms(1,2) that(1), of ts bs] that(2,3,4) by simp
  ultimately show ?thesis
    using clean_never_spec_errors prepare_data_never_spec_errors by blast
qed

theorem prepare_data_empty_panel_witness:
  "read_csv ext_ex ''text.csv'' = Some panel_text \<and>
   clean_quarterly_data panel_text (fl (3 / 10)) = Inr \<lparr>index = [0, 1], columns = []\<rparr> \<and>
   columns \<lparr>index = [0, 1], columns = []\<rparr> = [] \<and>
   fit_transform ext_ex (frame_values \<lparr>index = [0, 1], columns = []\<rparr>) = None \<and>
   prepare_data ext_ex ''text.csv'' (Fin (3602879701896397 / 18014398509481984)) 32 =
     Inl FitTransformFailed \<and>
   prepare_data ext_ex ''text.csv'' (Fin (3602879701896397 / 18014398509481984)) 32 \<noteq>
     Inl EmptyPanelError"
proof -
  have rd: "read_csv ext_ex ''text.csv'' = Some panel_text"
    by (simp add: ext_ex_def)
  have e: "index \<lparr>index = [0, 1], columns = []\<rparr> = [] \<or> columns \<lparr>index = [0, 1], columns = []\<rparr> = []"
    by simp
  have ft: "fit_transform ext_ex (frame_values \<lparr>index = [0, 1], columns = []\<rparr>) = None"
    by code_simp
  from prepare_data_empty_panel[OF rd text_cleaned e, of "Fin (3602879701896397 / 18014398509481984)" 32]
    rd text_cleaned ft
  show ?thesis by simp
qed

section \<open>Properties of the fetch loop\<close>

text \<open>
  The panel a run returns is a fold of the single-iteration update over the entries
  of the catalog; the nested loops visit the entries in catalog order.
\<close>

lemma panel_emit [simp]: "panel (emit es st) = panel st"
  by (simp add: emit_def)

lemma trace_emit [simp]: "trace (emit es st) = trace st @ es"
  by (simp add: emit_def)

lemma panel_collect_one: "panel (collect_one fred e st) = assign fred e (panel st)"
  by (simp add: collect_one_def assign_def Let_def split: option.splits sum.splits)

lemma panel_collect_series:
  "panel (collect_series fred es st) = fold (assign fred) es (panel st)"
  by (induction es arbitrary: st) (simp_all add: panel_collect_one)

lemma collect_series_append:
  "collect_series fred (xs @ ys) st = collect_series fred ys (collect_series fred xs st)"
  by (induction xs arbitrary: st) simp_all

lemma collect_categories_concat:
  "collect_categories fred cs st = collect_series fred (concat (map snd cs)) st"
  by (induction cs arbitrary: st) (simp_all add: collect_series_append)

lemma collect_data_fold:
  "collect_data fred series_map =
     fold (assign fred) (catalog_entries series_map) \<lparr>index = [], columns = []\<rparr>"
  by (simp add: collect_data_def collect_run_def collect_categories_concat panel_collect_series
      catalog_entries_def)

lemma assign_not_fetched: "\<not> fetched fred e \<Longrightarrow> assign fred e df = df"
  by (simp add: fetched_def assign_def)

lemma fold_assign_filter:
  "fold (assign fred) (filter (fetched fred) es) df = fold (assign fred) es df"
  by (induction es arbitrary: df) (simp_all add: assign_not_fetched)

lemma entries_without_failures:
  "catalog_entries (without_failures fred series_map) =
     filter (fetched fred) (catalog_entries series_map)"
  by (simp add: catalog_entries_def without_failures_def filter_concat comp_def)

lemma collect_data_without_failures:
  "collect_data fred (without_failures fred series_map) = collect_data fred series_map"
  by (simp add: collect_data_fold entries_without_failures fold_assign_filter)

text \<open>Assignments: index and column labels.\<close>

lemma index_set_column [simp]: "index (set_column df name c) = index df"
  by (simp add: set_column_def)

lemma colnames_set_column:
  "colnames (set_column df name c) =
     (if name \<in> set (colnames df) then colnames df else colnames df @ [name])"
proof -
  have "map fst (map (\<lambda>nc. if fst nc = name then (name, c) else nc) xs) = map fst xs" for xs
    by (induction xs) auto
  then show ?thesis by (simp add: set_column_def colnames_def)
qed

lemma colnames_ensure_valid_index [simp]:
  "colnames (ensure_valid_index df s) = colnames df"
  by (simp add: ensure_valid_index_def colnames_def comp_def)

lemma index_ensure_valid_index:
  "index (ensure_valid_index df s) = (if index df = [] then map fst s else index df)"
  by (auto simp: ensure_valid_index_def)

lemma setitem_cases:
  "setitem df name s = Inr df' \<Longrightarrow>
     index df' = (if index df = [] then map fst s else index df) \<and>
     colnames df' = (if name \<in> set (colnames df) then colnames df else colnames df @ [name])"
  by (auto simp: setitem_def Let_def colnames_set_column index_ensure_valid_index
      split: sum.splits)

lemma setitem_succeeds:
  assumes "distinct (map fst s) \<or> index df = []"
  shows "\<exists>df'. setitem df name s = Inr df'"
proof (cases "index df = []")
  case True
  then show ?thesis
    by (auto simp: setitem_def Let_def reindex_for_setitem_def ensure_valid_index_def)
next
  case False
  with assms show ?thesis
    by (auto simp: setitem_def Let_def reindex_for_setitem_def ensure_valid_index_def)
qed

text \<open>The index and the labels after one iteration and after a run.\<close>

lemma index_assign:
  "index (assign fred e df) =
     (if index df = [] then (case fred (fst e) params of None \<Rightarrow> [] | Some s \<Rightarrow> map fst s)
      else index df)"
proof (cases "fred (fst e) params")
  case None
  then show ?thesis by (simp add: assign_def)
next
  case (Some s)
  show ?thesis
  proof (cases "setitem df (snd e) s")
    case (Inl err)
    with setitem_succeeds[of s df "snd e"] have "index df \<noteq> []" by auto
    with Some Inl show ?thesis by (simp add: assign_def)
  next
    case (Inr df')
    with Some setitem_cases[OF Inr] show ?thesis by (simp add: assign_def)
  qed
qed

lemma colnames_assign:
  assumes "\<And>s. fred (fst e) params = Some s \<Longrightarrow> distinct (map fst s)"
  shows "colnames (assign fred e df) =
     (if fetched fred e \<and> snd e \<notin> set (colnames df) then colnames df @ [snd e] else colnames df)"
proof (cases "fred (fst e) params")
  case None
  then show ?thesis by (simp add: assign_def fetched_def)
next
  case (Some s)
  with assms have "distinct (map fst s)" by simp
  then obtain df' where df': "setitem df (snd e) s = Inr df'"
    using setitem_succeeds[of s df "snd e"] by auto
  with Some setitem_cases[OF df'] show ?thesis by (simp add: assign_def fetched_def)
qed

lemma fetched_series_Cons:
  "fetched_series fred (e # es) =
     (case fred (fst e) params of None \<Rightarrow> fetched_series fred es | Some s \<Rightarrow> s # fetched_series fred es)"
  by (simp add: fetched_series_def map_filter_simps split: option.splits)

lemma fetched_series_Nil [simp]: "fetched_series fred [] = []"
  by (simp add: fetched_series_def map_filter_simps)

lemma index_fold_assign:
  "index (fold (assign fred) es df) =
     (if index df \<noteq> [] then index df
      else case find (\<lambda>s. s \<noteq> []) (fetched_series fred es) of None \<Rightarrow> [] | Some s \<Rightarrow> map fst s)"
proof (induction es arbitrary: df)
  case Nil
  then show ?case by simp
next
  case (Cons e es)
  show ?case
    by (cases "fred (fst e) params")
      (auto simp: Cons.IH index_assign fetched_series_Cons)
qed

lemma unique_dates_Cons:
  "unique_dates fred (e # es) \<longleftrightarrow>
     (\<forall>s. fred (fst e) params = Some s \<longrightarrow> distinct (map fst s)) \<and> unique_dates fred es"
  by (auto simp: unique_dates_def split: option.splits)

lemma colnames_fold_assign_set:
  "unique_dates fred es \<Longrightarrow>
   set (colnames (fold (assign fred) es df)) = set (colnames df) \<union> snd ` {e \<in> set es. fetched fred e}"
proof (induction es arbitrary: df)
  case Nil
  then show ?case by simp
next
  case (Cons e es)
  then have "colnames (assign fred e df) =
     (if fetched fred e \<and> snd e \<notin> set (colnames df) then colnames df @ [snd e] else colnames df)"
    by (intro colnames_assign) (simp add: unique_dates_Cons)
  moreover from Cons have "set (colnames (fold (assign fred) es (assign fred e df))) =
      set (colnames (assign fred e df)) \<union> snd ` {e \<in> set es. fetched fred e}"
    by (simp add: unique_dates_Cons)
  ultimately show ?case by auto
qed

lemma colnames_fold_assign_distinct:
  "unique_dates fred es \<Longrightarrow> distinct (colnames df) \<Longrightarrow>
   distinct (colnames (fold (assign fred) es df))"
proof (induction es arbitrary: df)
  case Nil
  then show ?case by simp
next
  case (Cons e es)
  then have "colnames (assign fred e df) =
     (if fetched fred e \<and> snd e \<notin> set (colnames df) then colnames df @ [snd e] else colnames df)"
    by (intro colnames_assign) (simp add: unique_dates_Cons)
  with Cons.prems have "distinct (colnames (assign fred e df))" by simp
  with Cons show ?case by (simp add: unique_dates_Cons)
qed

lemma colnames_fold_assign_order:
  "unique_dates fred es \<Longrightarrow> distinct (colnames df @ map snd (filter (fetched fred) es)) \<Longrightarrow>
   colnames (fold (assign fred) es df) = colnames df @ map snd (filter (fetched fred) es)"
proof (induction es arbitrary: df)
  case Nil
  then show ?case by simp
next
  case (Cons e es)
  then have c: "colnames (assign fred e df) =
     (if fetched fred e \<and> snd e \<notin> set (colnames df) then colnames df @ [snd e] else colnames df)"
    by (intro colnames_assign) (simp add: unique_dates_Cons)
  from Cons.prems(1) have u: "unique_dates fred es" by (simp add: unique_dates_Cons)
  show ?case
  proof (cases "fetched fred e")
    case False
    with c have c': "colnames (assign fred e df) = colnames df" by simp
    from Cons.prems(2) False
    have "distinct (colnames (assign fred e df) @ map snd (filter (fetched fred) es))"
      by (simp add: c')
    from Cons.IH[OF u this] False show ?thesis by (simp add: c')
  next
    case True
    with Cons.prems(2) have notin: "snd e \<notin> set (colnames df)" by simp
    with c True have c': "colnames (assign fred e df) = colnames df @ [snd e]" by simp
    from Cons.prems(2) True
    have "distinct (colnames (assign fred e df) @ map snd (filter (fetched fred) es))"
      by (simp add: c')
    from Cons.IH[OF u this] True show ?thesis by (simp add: c')
  qed
qed

text \<open>Every iteration keeps the columns aligned with the index.\<close>

lemma lookup_date_own_dates:
  assumes "distinct (map fst s)"
  shows "map (lookup_date s) (map fst s) = map snd s"
proof -
  have "lookup_date s (fst x) = snd x" if "x \<in> set s" for x
  proof -
    from that have "(fst x, snd x) \<in> set s" by simp
    with assms have "map_of s (fst x) = Some (snd x)" by (rule map_of_is_SomeI)
    then show ?thesis by (simp add: lookup_date_def)
  qed
  then show ?thesis by (simp add: comp_def)
qed

lemma lookup_date_Nil [simp]: "lookup_date [] d = None"
  by (simp add: lookup_date_def)

lemma aligned_ensure_valid_index:
  assumes "aligned fred es df"
  shows "aligned fred es (ensure_valid_index df s)"
proof (cases "index df = [] \<and> s \<noteq> []")
  case False
  then have "ensure_valid_index df s = df" by (auto simp: ensure_valid_index_def)
  with assms show ?thesis by simp
next
  case True
  show ?thesis
    unfolding aligned_def
  proof
    fix nc assume "nc \<in> set (columns (ensure_valid_index df s))"
    with True obtain nc0 where nc0: "nc0 \<in> set (columns df)"
      and nc: "nc = (fst nc0, col_all_na (length s) (snd nc0))"
      by (auto simp: ensure_valid_index_def)
    from assms nc0 True obtain e where e: "e \<in> set es" "snd e = fst nc0"
        "fred (fst e) params = Some []" "snd nc0 = FloatCol []"
      unfolding aligned_def by auto
    have "snd nc = FloatCol (map (lookup_date []) (index (ensure_valid_index df s)))"
      using True e(4) by (simp add: nc ensure_valid_index_def comp_def map_replicate_const)
    with e True nc show "\<exists>e\<in>set es. \<exists>s'. snd e = fst nc \<and> fred (fst e) params = Some s' \<and>
        snd nc = FloatCol (map (lookup_date s') (index (ensure_valid_index df s))) \<and>
        (index (ensure_valid_index df s) = [] \<longrightarrow> s' = [])"
      by auto
  qed
qed

lemma reindex_for_setitem_lookup:
  assumes "distinct (map fst s)"
  shows "reindex_for_setitem s (ensure_valid_index df s) =
           Inr (map (lookup_date s) (index (ensure_valid_index df s)))"
    and "index (ensure_valid_index df s) = [] \<Longrightarrow> s = []"
proof -
  show e: "index (ensure_valid_index df s) = [] \<Longrightarrow> s = []"
    by (auto simp: ensure_valid_index_def split: if_splits)
  show "reindex_for_setitem s (ensure_valid_index df s) =
           Inr (map (lookup_date s) (index (ensure_valid_index df s)))"
  proof (cases "index (ensure_valid_index df s) = []")
    case True
    with e show ?thesis by (simp add: reindex_for_setitem_def)
  next
    case False
    with assms show ?thesis
      by (auto simp: reindex_for_setitem_def lookup_date_own_dates[symmetric])
  qed
qed

lemma aligned_set_column:
  assumes "aligned fred es df" and "e \<in> set es" and "fred (fst e) params = Some s"
    and "index df = [] \<Longrightarrow> s = []"
  shows "aligned fred es (set_column df (snd e) (FloatCol (map (lookup_date s) (index df))))"
  using assms unfolding aligned_def set_column_def
  by (auto split: if_splits)

lemma aligned_assign:
  assumes a: "aligned fred es df" and e: "e \<in> set es"
    and d: "\<And>s. fred (fst e) params = Some s \<Longrightarrow> distinct (map fst s)"
  shows "aligned fred es (assign fred e df)"
proof (cases "fred (fst e) params")
  case None
  with a show ?thesis by (simp add: assign_def)
next
  case (Some s)
  note r = reindex_for_setitem_lookup[OF d[OF Some], of df]
  have "setitem df (snd e) s =
      Inr (set_column (ensure_valid_index df s) (snd e)
             (FloatCol (map (lookup_date s) (index (ensure_valid_index df s)))))"
    by (simp add: setitem_def Let_def r(1))
  moreover have "aligned fred es (set_column (ensure_valid_index df s) (snd e)
             (FloatCol (map (lookup_date s) (index (ensure_valid_index df s)))))"
    using aligned_ensure_valid_index[OF a] e Some r(2) by (rule aligned_set_column)
  ultimately show ?thesis using Some by (simp add: assign_def)
qed

lemma aligned_fold_assign:
  assumes "aligned fred es df" and "set es' \<subseteq> set es" and "unique_dates fred es"
  shows "aligned fred es (fold (assign fred) es' df)"
  using assms
proof (induction es' arbitrary: df)
  case Nil
  then show ?case by simp
next
  case (Cons e es')
  from Cons.prems have e: "e \<in> set es" by simp
  have "distinct (map fst s)" if "fred (fst e) params = Some s" for s
    using Cons.prems(3) e that by (auto simp: unique_dates_def list_all_iff)
  with Cons.prems(1) e have "aligned fred es (assign fred e df)" by (intro aligned_assign)
  with Cons show ?case by simp
qed

lemma collect_data_aligned:
  assumes "unique_dates fred (catalog_entries series_map)"
  shows "aligned fred (catalog_entries series_map) (collect_data fred series_map)"
  unfolding collect_data_fold
  by (rule aligned_fold_assign) (simp_all add: aligned_def assms)

text \<open>
  Reading a series at the dates of an index gives a column that holds the series, and
  a series without repeated dates is held by one column only.
\<close>

lemma holds_series_lookup: "holds_series s idx (FloatCol (map (lookup_date s) idx))"
proof -
  have "(d, lookup_date s d) \<in> set s" if "d \<in> fst ` set s" for d
  proof -
    from that have "map_of s d \<noteq> None" by (simp add: map_of_eq_None_iff)
    then obtain v where v: "map_of s d = Some v" by blast
    then have "(d, v) \<in> set s" by (rule map_of_SomeD)
    with v show ?thesis by (simp add: lookup_date_def)
  qed
  moreover have "lookup_date s d = None" if "d \<notin> fst ` set s" for d
  proof -
    from that have "map_of s d = None" by (simp add: map_of_eq_None_iff)
    then show ?thesis by (simp add: lookup_date_def)
  qed
  ultimately show ?thesis by (simp add: holds_series_def list_all2_map2 list_all2_same)
qed

lemma holds_series_unique:
  assumes "distinct (map fst s)" and "holds_series s idx c" and "holds_series s idx c'"
  shows "c = c'"
proof -
  let ?P = "\<lambda>d v. if d \<in> fst ` set s then (d, v) \<in> set s else v = None"
  from assms(2) obtain vals where c: "c = FloatCol vals" and v: "list_all2 ?P idx vals"
    by (cases c) (simp_all add: holds_series_def)
  from assms(3) obtain vals' where c': "c' = FloatCol vals'" and v': "list_all2 ?P idx vals'"
    by (cases c') (simp_all add: holds_series_def)
  have eq: "a = b" if "?P d a" "?P d b" for d a b
  proof (cases "d \<in> fst ` set s")
    case True
    with that have "(d, a) \<in> set s" "(d, b) \<in> set s" by simp_all
    with assms(1) show ?thesis by (rule eq_key_imp_eq_value)
  next
    case False
    with that show ?thesis by simp
  qed
  have "vals = vals'"
  proof (rule nth_equalityI)
    show "length vals = length vals'"
      using v v' by (simp add: list_all2_lengthD[symmetric])
  next
    fix i assume "i < length vals"
    with v v' have "?P (idx ! i) (vals ! i)" "?P (idx ! i) (vals' ! i)"
      by (simp_all add: list_all2_conv_all_nth)
    then show "vals ! i = vals' ! i" by (rule eq)
  qed
  with c c' show ?thesis by simp
qed

text \<open>
  With distinct display names among the answered entries, the columns of the panel are
  the answered entries' series, one by one in catalog order.
\<close>

lemma columns_fold_assign_series:
  assumes u: "unique_dates fred (catalog_entries series_map)"
    and d: "distinct (map snd (filter (fetched fred) (catalog_entries series_map)))"
  shows "list_all2
           (\<lambda>e nc. fst nc = snd e \<and>
              (\<exists>s. fred (fst e) params = Some s \<and>
                   holds_series s (index (collect_data fred series_map)) (snd nc)))
           (filter (fetched fred) (catalog_entries series_map))
           (columns (collect_data fred series_map))"
proof -
  let ?P = "collect_data fred series_map"
  let ?fs = "filter (fetched fred) (catalog_entries series_map)"
  have e: "colnames \<lparr>index = [], columns = []\<rparr> = []" by (simp add: colnames_def)
  have names: "map fst (columns ?P) = map snd ?fs"
    using colnames_fold_assign_order[OF u] d
    by (simp add: collect_data_fold e colnames_def)
  then have len: "length ?fs = length (columns ?P)"
    by (metis length_map)
  have inj: "inj_on snd (set ?fs)"
    using d by (simp add: distinct_map)
  have "fst (columns ?P ! i) = snd (?fs ! i) \<and>
        (\<exists>s. fred (fst (?fs ! i)) params = Some s \<and>
             holds_series s (index ?P) (snd (columns ?P ! i)))"
    if i: "i < length ?fs" for i
  proof -
    from i len have ic: "i < length (columns ?P)" by simp
    have n: "fst (columns ?P ! i) = snd (?fs ! i)"
      using names i ic by (metis nth_map)
    from ic have "columns ?P ! i \<in> set (columns ?P)" by simp
    with collect_data_aligned[OF u] obtain e' s
      where e': "e' \<in> set (catalog_entries series_map)" "snd e' = fst (columns ?P ! i)"
        and s: "fred (fst e') params = Some s"
        and c: "snd (columns ?P ! i) = FloatCol (map (lookup_date s) (index ?P))"
      unfolding aligned_def by blast
    from e'(1) s have "e' \<in> set ?fs" by (simp add: fetched_def)
    moreover from i have "?fs ! i \<in> set ?fs" by (rule nth_mem)
    moreover have "snd e' = snd (?fs ! i)" using e'(2) n by simp
    ultimately have "e' = ?fs ! i" using inj by (rule_tac inj_onD)
    with s c n show ?thesis by (simp add: holds_series_lookup)
  qed
  with len show ?thesis by (simp add: list_all2_conv_all_nth)
qed

text \<open>The catalog of the source declares each series id and each display name once.\<close>

lemma SERIES_MAP_distinct:
  "distinct (map fst (catalog_entries SERIES_MAP))"
  "distinct (map snd (catalog_entries SERIES_MAP))"
  "length (catalog_entries SERIES_MAP) = 54"
  by code_simp+

lemma catalog_ex_unique_dates_partial: "unique_dates fred_partial (catalog_entries catalog_ex)"
  by code_simp

lemma collect_data_partial:
  "collect_data fred_partial catalog_ex =
     \<lparr>index = [1, 2, 3],
      columns = [(''Personal_Consumption'', FloatCol [Some 10, Some 11, None]),
                 (''Unemployment_Rate'', FloatCol [None, Some 4, Some 5])]\<rparr>"
  by code_simp

subsection \<open>The claims about the fetch loop\<close>

text \<open>
  C4: after every request, failed or not, the loop pauses at least 200 ms before the
  next request. The source sleeps inside the \<^verbatim>\<open>try\<close> block, after the assignment, so a
  request that raises skips the pause. With a provider that fails on the first series
  the second request follows the first with no pause between them.
\<close>

theorem collect_run_no_pause_after_failure:
  "trace (collect_run fred_partial catalog_ex) =
     [Request ''GDPC1'', PrintFailed ''Real_GDP'' ''GDPC1'',
      Request ''PCE'', PrintAdded ''Personal_Consumption'' ''PCE'', Sleep 200,
      Request ''UNRATE'', PrintAdded ''Unemployment_Rate'' ''UNRATE'', Sleep 200] \<and>
   \<not> paused_after_every_request (trace (collect_run fred_partial catalog_ex))"
  by code_simp

text \<open>
  C6. For every catalog and every provider whose series have no repeated date: the
  panel is the one the loop assembles from the catalog without the entries the provider
  fails on, so a failure changes nothing for the other series; the column labels of the
  panel are exactly the display names of the entries the provider answers, each once;
  every column holds the series of an answered entry of its label, read at the dates of
  the panel's index; and when the display names of the answered entries are distinct,
  the columns of the panel are, one by one in catalog order, the answered entries: each
  labelled by the entry's display name and holding the entry's series.
\<close>

theorem collect_data_partial_failures:
  assumes "unique_dates fred (catalog_entries series_map)"
  shows "collect_data fred (without_failures fred series_map) = collect_data fred series_map \<and>
         set (colnames (collect_data fred series_map)) =
           snd ` {e \<in> set (catalog_entries series_map). fetched fred e} \<and>
         distinct (colnames (collect_data fred series_map)) \<and>
         (distinct (map snd (filter (fetched fred) (catalog_entries series_map))) \<longrightarrow>
            colnames (collect_data fred series_map) =
              map snd (filter (fetched fred) (catalog_entries series_map))) \<and>
         (\<forall>nc\<in>set (columns (collect_data fred series_map)).
            \<exists>e\<in>set (catalog_entries series_map). \<exists>s.
              snd e = fst nc \<and> fred (fst e) params = Some s \<and>
              holds_series s (index (collect_data fred series_map)) (snd nc)) \<and>
         (distinct (map snd (filter (fetched fred) (catalog_entries series_map))) \<longrightarrow>
            list_all2
              (\<lambda>e nc. fst nc = snd e \<and>
                 (\<exists>s. fred (fst e) params = Some s \<and>
                      holds_series s (index (collect_data fred series_map)) (snd nc)))
              (filter (fetched fred) (catalog_entries series_map))
              (columns (collect_data fred series_map)))"
proof -
  have e: "colnames \<lparr>index = [], columns = []\<rparr> = []" by (simp add: colnames_def)
  have "set (colnames (collect_data fred series_map)) =
           snd ` {e \<in> set (catalog_entries series_map). fetched fred e}"
    unfolding collect_data_fold using colnames_fold_assign_set[OF assms] by (simp add: e)
  moreover have "distinct (colnames (collect_data fred series_map))"
    unfolding collect_data_fold using colnames_fold_assign_distinct[OF assms] by (simp add: e)
  moreover have "colnames (collect_data fred series_map) =
              map snd (filter (fetched fred) (catalog_entries series_map))"
    if "distinct (map snd (filter (fetched fred) (catalog_entries series_map)))"
    unfolding collect_data_fold using colnames_fold_assign_order[OF assms] that by (simp add: e)
  moreover have "\<forall>nc\<in>set (columns (collect_data fred series_map)).
            \<exists>e\<in>set (catalog_entries series_map). \<exists>s.
              snd e = fst nc \<and> fred (fst e) params = Some s \<and>
              holds_series s (index (collect_data fred series_map)) (snd nc)"
  proof
    fix nc assume "nc \<in> set (columns (collect_data fred series_map))"
    with collect_data_aligned[OF assms] obtain e s
      where "e \<in> set (catalog_entries series_map)" "snd e = fst nc"
        "fred (fst e) params = Some s"
        "snd nc = FloatCol (map (lookup_date s) (index (collect_data fred series_map)))"
      unfolding aligned_def by blast
    then show "\<exists>e\<in>set (catalog_entries series_map). \<exists>s.
              snd e = fst nc \<and> fred (fst e) params = Some s \<and>
              holds_series s (index (collect_data fred series_map)) (snd nc)"
      using holds_series_lookup by force
  qed
  moreover note columns_fold_assign_series[OF assms]
  ultimately show ?thesis by (simp add: collect_data_without_failures)
qed

theorem collect_data_partial_failures_witness:
  "unique_dates fred_partial (catalog_entries catalog_ex) \<and>
   \<not> fetched fred_partial (''GDPC1'', ''Real_GDP'') \<and>
   without_failures fred_partial catalog_ex =
     [(''GDP and Economic Growth'', [(''PCE'', ''Personal_Consumption'')]),
      (''Labor Market'', [(''UNRATE'', ''Unemployment_Rate'')])] \<and>
   collect_data fred_partial (without_failures fred_partial catalog_ex) =
     collect_data fred_partial catalog_ex \<and>
   colnames (collect_data fred_partial catalog_ex) = [''Personal_Consumption'', ''Unemployment_Rate''] \<and>
   collect_data fred_partial catalog_ex =
     \<lparr>index = [1, 2, 3],
      columns = [(''Personal_Consumption'', FloatCol [Some 10, Some 11, None]),
                 (''Unemployment_Rate'', FloatCol [None, Some 4, Some 5])]\<rparr> \<and>
   holds_series [(1, Some 10), (2, Some 11), (3, None)] [1, 2, 3]
     (FloatCol [Some 10, Some 11, None]) \<and>
   holds_series [(2, Some 4), (3, Some 5), (4, Some 6)] [1, 2, 3]
     (FloatCol [None, Some 4, Some 5])"
proof -
  have f: "\<not> fetched fred_partial (''GDPC1'', ''Real_GDP'')" by code_simp
  have w: "without_failures fred_partial catalog_ex =
     [(''GDP and Economic Growth'', [(''PCE'', ''Personal_Consumption'')]),
      (''Labor Market'', [(''UNRATE'', ''Unemployment_Rate'')])]" by code_simp
  have n: "filter (fetched fred_partial) (catalog_entries catalog_ex) =
      [(''PCE'', ''Personal_Consumption''), (''UNRATE'', ''Unemployment_Rate'')]" by code_simp
  have p: "fred_partial ''PCE'' params = Some [(1, Some 10), (2, Some 11), (3, None)]"
    and q: "fred_partial ''UNRATE'' params = Some [(2, Some 4), (3, Some 5), (4, Some 6)]"
    by code_simp+
  note t = collect_data_partial_failures[OF catalog_ex_unique_dates_partial]
  from t have same: "collect_data fred_partial (without_failures fred_partial catalog_ex) =
     collect_data fred_partial catalog_ex" by blast
  from t n have names: "colnames (collect_data fred_partial catalog_ex) =
      [''Personal_Consumption'', ''Unemployment_Rate'']" by simp
  from t n have "list_all2
      (\<lambda>e nc. fst nc = snd e \<and>
         (\<exists>s. fred_partial (fst e) params = Some s \<and>
              holds_series s (index (collect_data fred_partial catalog_ex)) (snd nc)))
      [(''PCE'', ''Personal_Consumption''), (''UNRATE'', ''Unemployment_Rate'')]
      (columns (collect_data fred_partial catalog_ex))" by simp
  then have h: "holds_series [(1, Some 10), (2, Some 11), (3, None)] [1, 2, 3]
     (FloatCol [Some 10, Some 11, None])"
    "holds_series [(2, Some 4), (3, Some 5), (4, Some 6)] [1, 2, 3]
     (FloatCol [None, Some 4, Some 5])"
    by (simp_all add: collect_data_partial p q)
  from catalog_ex_unique_dates_partial f w same names collect_data_partial h
  show ?thesis by (intro conjI)
qed

text \<open>
  C10, as stated: the row index of the panel is that of the first successfully fetched
  series. With a provider that answers the first series without any observation, the
  panel takes the dates of the second series: an assignment to a frame without rows
  adopts the index of the assigned series whenever that series is not empty.
\<close>

theorem collect_data_index_counterexample:
  "fred_empty_first ''GDPC1'' params = Some [] \<and>
   first_fetched fred_empty_first catalog_ex = Some [] \<and>
   fred_empty_first ''PCE'' params = Some [(1, Some 10), (2, Some 11)] \<and>
   index (collect_data fred_empty_first catalog_ex) = [1, 2] \<and>
   colnames (collect_data fred_empty_first catalog_ex) = [''Real_GDP'', ''Personal_Consumption'']"
  by code_simp

text \<open>
  C10, amended. In every run in which some successfully fetched series has an
  observation (and no fetched series repeats a date), the row index of the panel is
  the dates of the first successfully fetched series that is not empty; this is the
  first successfully fetched series whenever that one is not empty. Every column holds
  the values of a fetched series of its display name at exactly those dates, NaN where
  the series has no observation: its values at other dates are discarded and its other
  dates are not added.
\<close>

theorem collect_data_index_fixed:
  assumes "unique_dates fred (catalog_entries series_map)"
    and "first_nonempty_fetched fred series_map = Some s0"
  shows "index (collect_data fred series_map) = map fst s0 \<and>
         (\<forall>s1. first_fetched fred series_map = Some s1 \<and> s1 \<noteq> [] \<longrightarrow> s0 = s1) \<and>
         (\<forall>nc\<in>set (columns (collect_data fred series_map)).
            \<exists>e\<in>set (catalog_entries series_map). \<exists>s.
              snd e = fst nc \<and> fred (fst e) params = Some s \<and>
              snd nc = FloatCol (map (lookup_date s) (map fst s0)))"
proof -
  have idx: "index (collect_data fred series_map) = map fst s0"
    using assms(2) by (simp add: collect_data_fold index_fold_assign first_nonempty_fetched_def)
  have "s0 = s1" if "first_fetched fred series_map = Some s1" "s1 \<noteq> []" for s1
    using that assms(2)
    by (auto simp: first_fetched_def first_nonempty_fetched_def split: list.splits)
  moreover have "\<forall>nc\<in>set (columns (collect_data fred series_map)).
            \<exists>e\<in>set (catalog_entries series_map). \<exists>s.
              snd e = fst nc \<and> fred (fst e) params = Some s \<and>
              snd nc = FloatCol (map (lookup_date s) (map fst s0))"
    using collect_data_aligned[OF assms(1)] unfolding aligned_def idx by blast
  ultimately show ?thesis using idx by blast
qed

theorem collect_data_index_fixed_witness:
  "unique_dates fred_partial (catalog_entries catalog_ex) \<and>
   first_nonempty_fetched fred_partial catalog_ex = Some [(1, Some 10), (2, Some 11), (3, None)] \<and>
   fred_partial ''UNRATE'' params = Some [(2, Some 4), (3, Some 5), (4, Some 6)] \<and>
   index (collect_data fred_partial catalog_ex) = [1, 2, 3] \<and>
   columns (collect_data fred_partial catalog_ex) =
     [(''Personal_Consumption'', FloatCol [Some 10, Some 11, None]),
      (''Unemployment_Rate'', FloatCol [None, Some 4, Some 5])]"
proof -
  have f: "first_nonempty_fetched fred_partial catalog_ex = Some [(1, Some 10), (2, Some 11), (3, None)]"
    by code_simp
  have u: "fred_partial ''UNRATE'' params = Some [(2, Some 4), (3, Some 5), (4, Some 6)]"
    by code_simp
  from collect_data_index_fixed[OF catalog_ex_unique_dates_partial f]
    catalog_ex_unique_dates_partial f u collect_data_partial
  show ?thesis by simp
qed

end
